theory Spec2Isabelle
  imports Main "HOL-Library.Sublist"
begin

section \<open>JavaScript values and string helpers\<close>

text \<open>
  Strings are \<^typ>\<open>string\<close> (lists of 8-bit characters); the importer only produces and
  tests ASCII punctuation, digits and identifier characters. JavaScript numbers that the
  code uses as counters and seconds are modelled as unbounded \<^typ>\<open>nat\<close> or \<^typ>\<open>int\<close>;
  the model is exact below \<open>2^53\<close>, where doubles represent every integer.
\<close>

text \<open>
  \<open>2^53\<close>: every integer below it is a double, and sums and products of such integers
  that stay below it are computed exactly by the code. Beyond it the code rounds and the
  model does not, so the properties of numbers are stated below this limit.
\<close>

definition exactLimit :: nat where
  "exactLimit = 9007199254740992"

definition isDigit :: "char \<Rightarrow> bool" where
  "isDigit c = (c \<in> set ''0123456789'')"

definition digitVal :: "char \<Rightarrow> nat" where
  "digitVal c = of_char c - 48"

definition digitChar :: "nat \<Rightarrow> char" where
  "digitChar d = char_of (48 + d)"

text \<open>\<open>parseInt\<close> on a non-empty string of decimal digits: its decimal value.\<close>

definition decVal :: "string \<Rightarrow> nat" where
  "decVal ds = foldl (\<lambda>a c. 10 * a + digitVal c) 0 ds"

text \<open>\<open>Number.prototype.toString\<close> on a non-negative integer.\<close>

fun showNat :: "nat \<Rightarrow> string" where
  "showNat n = (if n < 10 then [digitChar n] else showNat (n div 10) @ [digitChar (n mod 10)])"

declare showNat.simps [simp del]

text \<open>\<open>Number.prototype.toString\<close> on an integer.\<close>

definition showInt :: "int \<Rightarrow> string" where
  "showInt i = (if i < 0 then CHR ''-'' # showNat (nat (- i)) else showNat (nat i))"

text \<open>\<open>s.padStart(2, '0')\<close>.\<close>

definition padStart2 :: "string \<Rightarrow> string" where
  "padStart2 s = replicate (2 - length s) CHR ''0'' @ s"

text \<open>\<open>str.includes(pat)\<close>: \<open>pat\<close> occurs as a contiguous run of \<open>str\<close>.\<close>

fun str_includes :: "string \<Rightarrow> string \<Rightarrow> bool" where
  "str_includes [] pat = (pat = [])"
| "str_includes (c # cs) pat = (prefix pat (c # cs) \<or> str_includes cs pat)"

section \<open>fetch-youtube-videos.ts: durations\<close>

text \<open>
  The regular expression \<open>/PT(?:(\d+)H)?(?:(\d+)M)?(?:(\d+)S)?/\<close> is not anchored: it
  matches at the leftmost \<open>PT\<close> of the string, and since the three groups are optional it
  always succeeds there. \<open>findPT\<close> returns the text after that \<open>PT\<close>, or \<open>None\<close> when
  \<open>match\<close> returns \<open>null\<close>.
\<close>

fun findPT :: "string \<Rightarrow> string option" where
  "findPT (a # b # cs) =
     (if a = CHR ''P'' \<and> b = CHR ''T'' then Some cs else findPT (b # cs))"
| "findPT _ = None"

text \<open>
  One optional group \<open>(?:(\d+)u)?\<close>: the greedy digits must be non-empty and followed by
  the unit letter; giving digits back cannot help, since the next character would then be
  a digit. A group that does not take part consumes nothing.
\<close>

definition optGroup :: "char \<Rightarrow> string \<Rightarrow> string option \<times> string" where
  "optGroup u s =
     (let ds = takeWhile isDigit s in
      case dropWhile isDigit s of
        [] \<Rightarrow> (None, s)
      | c # r \<Rightarrow> if ds \<noteq> [] \<and> c = u then (Some ds, r) else (None, s))"

text \<open>\<open>parseInt(match[k] || '0')\<close>.\<close>

definition groupVal :: "string option \<Rightarrow> nat" where
  "groupVal g = (case g of None \<Rightarrow> decVal ''0'' | Some ds \<Rightarrow> decVal ds)"

text \<open>
  The result is the code's number when it is below \<open>exactLimit\<close>: the total bounds
  each component and each intermediate sum, so nothing is rounded on the way.
\<close>

definition parseDurationToSeconds :: "string \<Rightarrow> nat" where
  "parseDurationToSeconds duration =
     (case findPT duration of
        None \<Rightarrow> 0
      | Some r0 \<Rightarrow>
          (let (g1, r1) = optGroup CHR ''H'' r0;
               (g2, r2) = optGroup CHR ''M'' r1;
               (g3, r3) = optGroup CHR ''S'' r2;
               hours = groupVal g1;
               minutes = groupVal g2;
               seconds = groupVal g3
           in hours * 3600 + minutes * 60 + seconds))"

definition formatDuration :: "string \<Rightarrow> string" where
  "formatDuration duration =
     (let totalSeconds = parseDurationToSeconds duration;
          hours = totalSeconds div 3600;
          minutes = (totalSeconds mod 3600) div 60;
          seconds = totalSeconds mod 60
      in if hours > 0
         then showNat hours @ '':'' @ padStart2 (showNat minutes) @ '':''
                @ padStart2 (showNat seconds)
         else showNat minutes @ '':'' @ padStart2 (showNat seconds))"

section \<open>The store behind the client\<close>

text \<open>
  Rows of the three tables, with the column types of \<open>types/database.ts\<close>: a nullable
  column is an \<open>option\<close>.
\<close>

record channel_row =
  c_slug :: string
  c_name :: string
  c_youtube_id :: "string option"
  c_visible :: "bool option"
  c_created_at :: "string option"

record media_row =
  m_id :: string
  m_title :: string
  m_date :: "string option"
  m_content_type :: "string option"
  m_duration :: "string option"
  m_description :: "string option"
  m_youtube_id :: "string option"
  m_image :: "string option"
  m_channel_slug :: "string option"
  m_youtube_url :: "string option"
  m_views :: "int option"
  m_likes :: "int option"
  m_comments :: "int option"
  m_apple_podcasts_url :: "string option"
  m_created_at :: "string option"

record stats_row =
  s_id :: nat
  s_channel_slug :: string
  s_date :: string
  s_subscriber_count :: "int option"
  s_total_channel_views :: "int option"
  s_total_videos :: "int option"
  s_calculated_total_likes :: "int option"
  s_calculated_total_comments :: "int option"
  s_created_at :: "string option"

record store =
  tv_channels :: "channel_row list"
  tv_media_items :: "media_row list"
  tv_channel_statistics :: "stats_row list"

text \<open>The payloads the code hands to \<open>upsert\<close> and \<open>update\<close>.\<close>

record channel_insert =
  ci_slug :: string
  ci_name :: string
  ci_youtube_id :: "string option"

record media_update =
  mu_views :: int
  mu_likes :: int
  mu_comments :: int

record stats_insert =
  si_channel_slug :: string
  si_date :: string
  si_subscriber_count :: "int option"
  si_total_channel_views :: "int option"
  si_total_videos :: "int option"
  si_calculated_total_likes :: int
  si_calculated_total_comments :: int

text \<open>
  The client never throws: every request answers \<open>{data, error}\<close>. When and with which
  message the store refuses a request is not decided by this repository, so it is a
  parameter: each field of \<open>backend\<close> gives the error message of a refused request, or
  \<open>None\<close> when the store carries it out. The defaults of the columns a payload omits are
  parameters too.
\<close>

record backend =
  select_error :: "store \<Rightarrow> string \<Rightarrow> string option"
  upsert_channel_error :: "store \<Rightarrow> channel_insert \<Rightarrow> string option"
  update_media_error :: "store \<Rightarrow> string \<Rightarrow> media_update \<Rightarrow> string option"
  insert_media_error :: "store \<Rightarrow> media_row list \<Rightarrow> string option"
  upsert_stats_error :: "store \<Rightarrow> stats_insert \<Rightarrow> string option"
  default_visible :: "bool option"
  default_created_at :: "string option"

definition VIDEOS_TABLE :: string where
  "VIDEOS_TABLE = ''tv_media_items''"

definition CHANNELS_TABLE :: string where
  "CHANNELS_TABLE = ''tv_channels''"

definition CHANNEL_STATISTICS_TABLE :: string where
  "CHANNEL_STATISTICS_TABLE = ''tv_channel_statistics''"

text \<open>\<open>from(VIDEOS_TABLE).select(..).eq('channel_slug', slug)\<close>: the rows of one channel.\<close>

definition select_media :: "backend \<Rightarrow> store \<Rightarrow> string \<Rightarrow> string + media_row list" where
  "select_media bk st slug =
     (case select_error bk st VIDEOS_TABLE of
        Some msg \<Rightarrow> Inl msg
      | None \<Rightarrow> Inr (filter (\<lambda>r. m_channel_slug r = Some slug) (tv_media_items st)))"

text \<open>\<open>from(CHANNELS_TABLE).select('*')\<close>.\<close>

definition select_channels :: "backend \<Rightarrow> store \<Rightarrow> string + channel_row list" where
  "select_channels bk st =
     (case select_error bk st CHANNELS_TABLE of
        Some msg \<Rightarrow> Inl msg
      | None \<Rightarrow> Inr (tv_channels st))"

text \<open>
  Modelled from the spec: \<open>slug\<close> is the primary key of the channel table (the table
  definition is not part of the sources), so \<open>from(CHANNELS_TABLE).upsert(record)\<close>
  resolves conflicts on it. A row with that slug takes the payload's columns and keeps the
  others; otherwise a new row is added, its omitted columns at their defaults.
\<close>

definition upsert_channel_row :: "backend \<Rightarrow> store \<Rightarrow> channel_insert \<Rightarrow> string option \<times> store" where
  "upsert_channel_row bk st p =
     (case upsert_channel_error bk st p of
        Some msg \<Rightarrow> (Some msg, st)
      | None \<Rightarrow>
          (None,
           st\<lparr>tv_channels :=
             (if ci_slug p \<in> set (map c_slug (tv_channels st))
              then map (\<lambda>r. if c_slug r = ci_slug p
                             then r\<lparr>c_name := ci_name p, c_youtube_id := ci_youtube_id p\<rparr>
                             else r) (tv_channels st)
              else tv_channels st @
                     [\<lparr>c_slug = ci_slug p, c_name = ci_name p,
                       c_youtube_id = ci_youtube_id p,
                       c_visible = default_visible bk,
                       c_created_at = default_created_at bk\<rparr>])\<rparr>))"

text \<open>
  \<open>from(VIDEOS_TABLE).update(record).eq('id', vid)\<close>: the three counters of every row with
  that id are overwritten, nothing else.
\<close>

definition update_media_row :: "backend \<Rightarrow> store \<Rightarrow> string \<Rightarrow> media_update \<Rightarrow> string option \<times> store" where
  "update_media_row bk st vid u =
     (case update_media_error bk st vid u of
        Some msg \<Rightarrow> (Some msg, st)
      | None \<Rightarrow>
          (None,
           st\<lparr>tv_media_items :=
             map (\<lambda>r. if m_id r = vid
                       then r\<lparr>m_views := Some (mu_views u), m_likes := Some (mu_likes u),
                              m_comments := Some (mu_comments u)\<rparr>
                       else r) (tv_media_items st)\<rparr>))"

text \<open>
  \<open>from(VIDEOS_TABLE).insert(records)\<close>: one statement for the whole batch, so a refused
  batch adds no row. The payload never sets \<open>created_at\<close>; the store fills its default.
\<close>

definition insert_media_rows :: "backend \<Rightarrow> store \<Rightarrow> media_row list \<Rightarrow> string option \<times> store" where
  "insert_media_rows bk st recs =
     (case insert_media_error bk st recs of
        Some msg \<Rightarrow> (Some msg, st)
      | None \<Rightarrow>
          (None,
           st\<lparr>tv_media_items :=
             tv_media_items st @ map (\<lambda>r. r\<lparr>m_created_at := default_created_at bk\<rparr>) recs\<rparr>))"

text \<open>
  Modelled from the spec: the snapshot table is composite-unique on
  \<open>(channel_slug, date)\<close> and the write is an upsert by that key (the table definition is
  not part of the sources). A row with the key takes the payload's columns; otherwise a
  new row is added with a fresh id.
\<close>

definition upsert_stats_row :: "backend \<Rightarrow> store \<Rightarrow> stats_insert \<Rightarrow> string option \<times> store" where
  "upsert_stats_row bk st p =
     (case upsert_stats_error bk st p of
        Some msg \<Rightarrow> (Some msg, st)
      | None \<Rightarrow>
          (None,
           st\<lparr>tv_channel_statistics :=
             (if list_ex (\<lambda>r. s_channel_slug r = si_channel_slug p \<and> s_date r = si_date p)
                   (tv_channel_statistics st)
              then map (\<lambda>r. if s_channel_slug r = si_channel_slug p \<and> s_date r = si_date p
                             then r\<lparr>s_subscriber_count := si_subscriber_count p,
                                    s_total_channel_views := si_total_channel_views p,
                                    s_total_videos := si_total_videos p,
                                    s_calculated_total_likes := Some (si_calculated_total_likes p),
                                    s_calculated_total_comments :=
                                      Some (si_calculated_total_comments p)\<rparr>
                             else r) (tv_channel_statistics st)
              else tv_channel_statistics st @
                     [\<lparr>s_id = Suc (foldr max (map s_id (tv_channel_statistics st)) 0),
                       s_channel_slug = si_channel_slug p, s_date = si_date p,
                       s_subscriber_count = si_subscriber_count p,
                       s_total_channel_views = si_total_channel_views p,
                       s_total_videos = si_total_videos p,
                       s_calculated_total_likes = Some (si_calculated_total_likes p),
                       s_calculated_total_comments = Some (si_calculated_total_comments p),
                       s_created_at = default_created_at bk\<rparr>])\<rparr>))"

section \<open>lib/db-operations.ts\<close>

record ChannelData =
  cd_slug :: string
  cd_name :: string
  cd_youtubeId :: "string option"

record Thumbnails =
  th_default :: "string option"
  th_medium :: "string option"
  th_high :: "string option"
  th_standard :: "string option"
  th_maxres :: "string option"

record VideoData =
  vd_id :: string
  vd_title :: string
  vd_date :: string
  vd_contentType :: "string option"
  vd_duration :: "string option"
  vd_description :: "string option"
  vd_thumbnails :: "Thumbnails option"
  vd_views :: "int option"
  vd_likes :: "int option"
  vd_comments :: "int option"

record ChannelStatistics =
  cs_subscriberCount :: "string option"
  cs_viewCount :: "string option"
  cs_videoCount :: "string option"

text \<open>The thrown \<open>Error\<close>, with its message.\<close>

datatype error = Error string

text \<open>
  \<open>x || y\<close> on an optional string keeps \<open>x\<close> only when it is present and non-empty;
  \<open>truthy\<close> is that test. On an optional number, \<open>x || 0\<close> is \<open>0\<close> for a missing value
  (\<open>undefined\<close>, \<open>null\<close> and \<open>NaN\<close> are all \<open>None\<close> here) and for \<open>0\<close> itself.
\<close>

definition truthy :: "string option \<Rightarrow> string option" where
  "truthy x = (case x of None \<Rightarrow> None | Some s \<Rightarrow> if s = [] then None else Some s)"

definition orElse :: "string option \<Rightarrow> string \<Rightarrow> string" where
  "orElse x d = (case truthy x of None \<Rightarrow> d | Some s \<Rightarrow> s)"

definition orZero :: "int option \<Rightarrow> int" where
  "orZero x = (case x of None \<Rightarrow> 0 | Some n \<Rightarrow> n)"

definition upsertChannel :: "backend \<Rightarrow> ChannelData \<Rightarrow> store \<Rightarrow> (error + unit) \<times> store" where
  "upsertChannel bk channelData st =
     (let channelRecord = \<lparr>ci_slug = cd_slug channelData, ci_name = cd_name channelData,
                            ci_youtube_id = truthy (cd_youtubeId channelData)\<rparr>
      in case upsert_channel_row bk st channelRecord of
           (Some msg, st') \<Rightarrow> (Inl (Error (''Failed to upsert channel: '' @ msg)), st')
         | (None, st') \<Rightarrow> (Inr (), st'))"

text \<open>The payload of a counter update (lines 70 to 74).\<close>

definition updateRecord :: "VideoData \<Rightarrow> media_update" where
  "updateRecord video =
     \<lparr>mu_views = orZero (vd_views video), mu_likes = orZero (vd_likes video),
      mu_comments = orZero (vd_comments video)\<rparr>"

text \<open>\<open>video.thumbnails?.high || video.thumbnails?.default || null\<close>.\<close>

definition pickImage :: "Thumbnails option \<Rightarrow> string option" where
  "pickImage t =
     (case t of
        None \<Rightarrow> None
      | Some th \<Rightarrow> (case truthy (th_high th) of Some h \<Rightarrow> Some h
                                              | None \<Rightarrow> truthy (th_default th)))"

text \<open>The payload of a new row (lines 88 to 102).\<close>

definition newRecord :: "string \<Rightarrow> VideoData \<Rightarrow> media_row" where
  "newRecord channelSlug video =
     \<lparr>m_id = vd_id video,
      m_title = vd_title video,
      m_date = Some (vd_date video),
      m_content_type = Some (orElse (vd_contentType video) ''podcast''),
      m_duration = truthy (vd_duration video),
      m_description = truthy (vd_description video),
      m_youtube_id = Some (vd_id video),
      m_image = pickImage (vd_thumbnails video),
      m_channel_slug = Some channelSlug,
      m_youtube_url = Some (''https://www.youtube.com/watch?v='' @ vd_id video),
      m_views = Some (orZero (vd_views video)),
      m_likes = Some (orZero (vd_likes video)),
      m_comments = Some (orZero (vd_comments video)),
      m_apple_podcasts_url = None,
      m_created_at = None\<rparr>"

text \<open>
  The \<open>for\<close> loop of \<open>insertNewMediaItems\<close>: the counter updates it issues, in batch
  order, and \<open>newRecords\<close>.
\<close>

fun splitVideos :: "string \<Rightarrow> string set \<Rightarrow> VideoData list
                     \<Rightarrow> (string \<times> media_update) list \<times> media_row list" where
  "splitVideos channelSlug existingIds [] = ([], [])"
| "splitVideos channelSlug existingIds (video # videos) =
     (let (updates, newRecords) = splitVideos channelSlug existingIds videos
      in if vd_id video \<in> existingIds
         then ((vd_id video, updateRecord video) # updates, newRecords)
         else (updates, newRecord channelSlug video # newRecords))"

text \<open>
  \<open>await Promise.all(updatePromises)\<close>: each update is sent and its answer, with the
  \<open>error\<close> it may carry, is dropped. The requests run concurrently; the model applies them
  in batch order.
\<close>

definition runUpdates :: "backend \<Rightarrow> (string \<times> media_update) list \<Rightarrow> store \<Rightarrow> store" where
  "runUpdates bk updates st =
     foldl (\<lambda>s (vid, u). snd (update_media_row bk s vid u)) st updates"

definition insertNewMediaItems :: "backend \<Rightarrow> string \<Rightarrow> VideoData list \<Rightarrow> store
                                     \<Rightarrow> (error + unit) \<times> store" where
  "insertNewMediaItems bk channelSlug videos st =
     (case select_media bk st channelSlug of
        Inl msg \<Rightarrow> (Inl (Error (''Failed to fetch existing videos: '' @ msg)), st)
      | Inr existingData \<Rightarrow>
          (let existingIds = set (map m_id existingData);
               (updates, newRecords) = splitVideos channelSlug existingIds videos;
               st1 = runUpdates bk updates st
           in if newRecords \<noteq> []
              then (case insert_media_rows bk st1 newRecords of
                      (Some msg, st2) \<Rightarrow>
                        (Inl (Error (''Failed to insert new media items: '' @ msg)), st2)
                    | (None, st2) \<Rightarrow> (Inr (), st2))
              else (Inr (), st1)))"

definition getChannelMediaItems :: "backend \<Rightarrow> string \<Rightarrow> store \<Rightarrow> error + media_row list" where
  "getChannelMediaItems bk channelSlug st =
     (case select_media bk st channelSlug of
        Inl msg \<Rightarrow> Inl (Error (''Failed to get channel media items: '' @ msg))
      | Inr data \<Rightarrow> Inr data)"

definition getAllChannels :: "backend \<Rightarrow> store \<Rightarrow> error + channel_row list" where
  "getAllChannels bk st =
     (case select_channels bk st of
        Inl msg \<Rightarrow> Inl (Error (''Failed to get all channels: '' @ msg))
      | Inr data \<Rightarrow> Inr data)"

text \<open>
  \<open>parseInt(s)\<close> without a radix: leading white space is skipped, a sign is read, a
  \<open>0x\<close> prefix selects base 16, and the longest run of digits is the value; no digit gives
  \<open>NaN\<close>, here \<open>None\<close>.
\<close>

definition isWhiteSpace :: "char \<Rightarrow> bool" where
  "isWhiteSpace c = (of_char c \<in> set [9, 10, 11, 12, 13, 32, 160 :: nat])"

definition hexDigitVal :: "char \<Rightarrow> nat option" where
  "hexDigitVal c =
     (if isDigit c then Some (digitVal c)
      else if c \<in> set ''abcdef'' then Some (of_char c - 87)
      else if c \<in> set ''ABCDEF'' then Some (of_char c - 55)
      else None)"

definition hexVal :: "string \<Rightarrow> nat" where
  "hexVal hs = foldl (\<lambda>a c. 16 * a + (case hexDigitVal c of Some d \<Rightarrow> d | None \<Rightarrow> 0)) 0 hs"

definition parseMagnitude :: "string \<Rightarrow> nat option" where
  "parseMagnitude s =
     (if prefix ''0x'' s \<or> prefix ''0X'' s
      then (let hs = takeWhile (\<lambda>c. hexDigitVal c \<noteq> None) (drop 2 s)
            in if hs = [] then None else Some (hexVal hs))
      else (let ds = takeWhile isDigit s
            in if ds = [] then None else Some (decVal ds)))"

definition parseInt :: "string \<Rightarrow> int option" where
  "parseInt s =
     (case dropWhile isWhiteSpace s of
        [] \<Rightarrow> None
      | c # r \<Rightarrow>
          if c = CHR ''-'' then map_option (\<lambda>n. - int n) (parseMagnitude r)
          else if c = CHR ''+'' then map_option int (parseMagnitude r)
          else map_option int (parseMagnitude (c # r)))"

text \<open>\<open>x ? parseInt(x) : 0\<close>; a \<open>NaN\<close> is stored as \<open>null\<close>.\<close>

definition countOf :: "string option \<Rightarrow> int option" where
  "countOf x = (case truthy x of None \<Rightarrow> Some 0 | Some s \<Rightarrow> parseInt s)"

text \<open>
  \<open>today\<close> is the calendar day of the clock,
  \<open>new Date().toISOString().split('T')[0]\<close>.
\<close>

definition upsertChannelStatistics :: "backend \<Rightarrow> string \<Rightarrow> string \<Rightarrow> ChannelStatistics
                                         \<Rightarrow> string option \<Rightarrow> store \<Rightarrow> (error + unit) \<times> store" where
  "upsertChannelStatistics bk today channelSlug statistics date st =
     (let statisticsDate = orElse date today
      in case select_media bk st channelSlug of
           Inl msg \<Rightarrow> (Inl (Error (''Failed to get video stats: '' @ msg)), st)
         | Inr videoStats \<Rightarrow>
             (let calculatedLikes = foldl (\<lambda>sum item. sum + orZero (m_likes item)) 0 videoStats;
                  calculatedComments =
                    foldl (\<lambda>sum item. sum + orZero (m_comments item)) 0 videoStats;
                  record = \<lparr>si_channel_slug = channelSlug,
                            si_date = statisticsDate,
                            si_subscriber_count = countOf (cs_subscriberCount statistics),
                            si_total_channel_views = countOf (cs_viewCount statistics),
                            si_total_videos = countOf (cs_videoCount statistics),
                            si_calculated_total_likes = calculatedLikes,
                            si_calculated_total_comments = calculatedComments\<rparr>
              in case upsert_stats_row bk st record of
                   (Some msg, st') \<Rightarrow>
                     (Inl (Error (''Failed to upsert channel statistics: '' @ msg)), st')
                 | (None, st') \<Rightarrow> (Inr (), st')))"

section \<open>The export writer\<close>

text \<open>The values a row holds: strings, numbers, booleans, \<open>null\<close>, and \<open>undefined\<close> for a
  column the row does not have.\<close>

datatype jsval = JNull | JUndefined | JStr string | JNum int | JBool bool

definition comma :: char where
  "comma = CHR 0x2C"

definition dquote :: char where
  "dquote = CHR 0x22"

definition newline :: char where
  "newline = CHR 0x0A"

text \<open>\<open>String(value)\<close>.\<close>

definition toStr :: "jsval \<Rightarrow> string" where
  "toStr v =
     (case v of
        JNull \<Rightarrow> ''null''
      | JUndefined \<Rightarrow> ''undefined''
      | JStr s \<Rightarrow> s
      | JNum i \<Rightarrow> showInt i
      | JBool b \<Rightarrow> (if b then ''true'' else ''false''))"

text \<open>\<open>str.replace(/"/g, '""')\<close>.\<close>

definition doubleQuotes :: "string \<Rightarrow> string" where
  "doubleQuotes str = concat (map (\<lambda>c. if c = dquote then [dquote, dquote] else [c]) str)"

definition escapeCSV :: "jsval \<Rightarrow> string" where
  "escapeCSV v =
     (if v = JNull \<or> v = JUndefined then []
      else (let str = toStr v
            in if comma \<in> set str \<or> dquote \<in> set str \<or> newline \<in> set str
               then [dquote] @ doubleQuotes str @ [dquote]
               else str))"

text \<open>\<open>xs.join(sep)\<close>.\<close>

fun joinStr :: "string \<Rightarrow> string list \<Rightarrow> string" where
  "joinStr sep [] = []"
| "joinStr sep [x] = x"
| "joinStr sep (x # y # zs) = x @ sep @ joinStr sep (y # zs)"

text \<open>A row is read by column name: \<open>row[header]\<close>.\<close>

definition arrayToCSV :: "(string \<Rightarrow> jsval) list \<Rightarrow> string list \<Rightarrow> string" where
  "arrayToCSV data headers =
     joinStr [newline]
       (joinStr [comma] headers #
        map (\<lambda>row. joinStr [comma] (map (\<lambda>header. escapeCSV (row header)) headers)) data)"

definition optStr :: "string option \<Rightarrow> jsval" where
  "optStr x = (case x of None \<Rightarrow> JNull | Some s \<Rightarrow> JStr s)"

definition optNum :: "int option \<Rightarrow> jsval" where
  "optNum x = (case x of None \<Rightarrow> JNull | Some n \<Rightarrow> JNum n)"

definition optBool :: "bool option \<Rightarrow> jsval" where
  "optBool x = (case x of None \<Rightarrow> JNull | Some b \<Rightarrow> JBool b)"

definition channelObject :: "channel_row \<Rightarrow> string \<Rightarrow> jsval" where
  "channelObject r h =
     (if h = ''slug'' then JStr (c_slug r)
      else if h = ''name'' then JStr (c_name r)
      else if h = ''youtube_id'' then optStr (c_youtube_id r)
      else if h = ''visible'' then optBool (c_visible r)
      else if h = ''created_at'' then optStr (c_created_at r)
      else JUndefined)"

definition mediaObject :: "media_row \<Rightarrow> string \<Rightarrow> jsval" where
  "mediaObject r h =
     (if h = ''id'' then JStr (m_id r)
      else if h = ''title'' then JStr (m_title r)
      else if h = ''date'' then optStr (m_date r)
      else if h = ''content_type'' then optStr (m_content_type r)
      else if h = ''duration'' then optStr (m_duration r)
      else if h = ''description'' then optStr (m_description r)
      else if h = ''youtube_id'' then optStr (m_youtube_id r)
      else if h = ''image'' then optStr (m_image r)
      else if h = ''channel_slug'' then optStr (m_channel_slug r)
      else if h = ''youtube_url'' then optStr (m_youtube_url r)
      else if h = ''views'' then optNum (m_views r)
      else if h = ''likes'' then optNum (m_likes r)
      else if h = ''comments'' then optNum (m_comments r)
      else if h = ''apple_podcasts_url'' then optStr (m_apple_podcasts_url r)
      else if h = ''created_at'' then optStr (m_created_at r)
      else JUndefined)"

definition channelHeaders :: "string list" where
  "channelHeaders = [''slug'', ''name'', ''youtube_id'', ''visible'', ''created_at'']"

definition videoHeaders :: "string list" where
  "videoHeaders =
     [''id'', ''title'', ''date'', ''content_type'', ''duration'', ''description'',
      ''youtube_id'', ''image'', ''channel_slug'', ''youtube_url'', ''views'', ''likes'',
      ''comments'', ''apple_podcasts_url'', ''created_at'']"

definition statisticsHeaders :: "string list" where
  "statisticsHeaders =
     [''id'', ''channel_slug'', ''date'', ''subscriber_count'', ''total_channel_views'',
      ''total_videos'', ''calculated_total_likes'', ''calculated_total_comments'',
      ''created_at'']"

text \<open>
  The loop \<open>for (const channel of channels) { videos = await getChannelMediaItems(..) }\<close>
  that the exports and the checks share: the rows of each channel in turn, or the first
  error thrown.
\<close>

fun mediaOfChannels :: "backend \<Rightarrow> store \<Rightarrow> channel_row list
                         \<Rightarrow> error + (channel_row \<times> media_row list) list" where
  "mediaOfChannels bk st [] = Inr []"
| "mediaOfChannels bk st (channel # channels) =
     (case getChannelMediaItems bk (c_slug channel) st of
        Inl e \<Rightarrow> Inl e
      | Inr videos \<Rightarrow>
          (case mediaOfChannels bk st channels of
             Inl e \<Rightarrow> Inl e
           | Inr rest \<Rightarrow> Inr ((channel, videos) # rest)))"

definition exportChannelsToCSV :: "backend \<Rightarrow> store \<Rightarrow> error + string" where
  "exportChannelsToCSV bk st =
     (case getAllChannels bk st of
        Inl e \<Rightarrow> Inl e
      | Inr channels \<Rightarrow> Inr (arrayToCSV (map channelObject channels) channelHeaders))"

definition exportVideosToCSV :: "backend \<Rightarrow> store \<Rightarrow> error + string" where
  "exportVideosToCSV bk st =
     (case getAllChannels bk st of
        Inl e \<Rightarrow> Inl e
      | Inr channels \<Rightarrow>
          (case mediaOfChannels bk st channels of
             Inl e \<Rightarrow> Inl e
           | Inr per \<Rightarrow>
               (let allVideos = concat (map snd per)
                in Inr (arrayToCSV (map mediaObject allVideos) videoHeaders))))"

text \<open>The parsed content of \<open>export_summary.json\<close>.\<close>

record summary =
  total_channels :: int
  visible :: int
  hidden :: int
  null_visibility :: int
  channels_with_youtube_id :: int
  total_videos :: int
  videos_per_channel :: "string \<Rightarrow> int option"
  export_timestamp :: string

text \<open>The loop of \<open>generateSummaryReport\<close> over the channels (lines 102 to 106).\<close>

fun countVideos :: "(channel_row \<times> media_row list) list \<Rightarrow> int \<times> (string \<Rightarrow> int option)
                     \<Rightarrow> int \<times> (string \<Rightarrow> int option)" where
  "countVideos [] acc = acc"
| "countVideos ((channel, videos) # rest) (totalVideos, channelVideoCounts) =
     countVideos rest
       (totalVideos + int (length videos),
        channelVideoCounts(c_slug channel \<mapsto> int (length videos)))"

definition generateSummaryReport :: "backend \<Rightarrow> string \<Rightarrow> store \<Rightarrow> error + summary" where
  "generateSummaryReport bk now st =
     (case getAllChannels bk st of
        Inl e \<Rightarrow> Inl e
      | Inr channels \<Rightarrow>
          (case mediaOfChannels bk st channels of
             Inl e \<Rightarrow> Inl e
           | Inr per \<Rightarrow>
               (let (totalVideos, channelVideoCounts) = countVideos per (0, Map.empty)
                in Inr \<lparr>total_channels = int (length channels),
                        visible = int (length (filter (\<lambda>c. c_visible c = Some True) channels)),
                        hidden = int (length (filter (\<lambda>c. c_visible c \<noteq> Some True) channels)),
                        null_visibility =
                          int (length (filter (\<lambda>c. c_visible c = None) channels)),
                        channels_with_youtube_id =
                          int (length (filter (\<lambda>c. truthy (c_youtube_id c) \<noteq> None) channels)),
                        total_videos = totalVideos,
                        videos_per_channel = channelVideoCounts,
                        export_timestamp = now\<rparr>)))"

section \<open>The reconciliation checker\<close>

text \<open>
  The export artifacts on disk; \<open>None\<close> is a file that does not exist. The summary is
  kept as the object \<open>JSON.parse\<close> returns.
\<close>

record files =
  export_channels_csv :: "string option"
  export_videos_csv :: "string option"
  export_channel_statistics_csv :: "string option"
  export_summary_json :: "summary option"

record VerificationResult =
  passed :: bool
  message :: string
  details :: "string list"

text \<open>\<open>fs.readFileSync\<close> throws on a missing file.\<close>

definition readSummary :: "files \<Rightarrow> error + summary" where
  "readSummary fs =
     (case export_summary_json fs of
        None \<Rightarrow> Inl (Error ''ENOENT: no such file or directory, open 'export_summary.json' '')
      | Some summary \<Rightarrow> Inr summary)"

text \<open>The success messages start with a check mark in the source; it is left out here.\<close>

definition verifyChannelCounts :: "backend \<Rightarrow> store \<Rightarrow> files \<Rightarrow> error + VerificationResult" where
  "verifyChannelCounts bk st fs =
     (case getAllChannels bk st of
        Inl e \<Rightarrow> Inl e
      | Inr channels \<Rightarrow>
          (case readSummary fs of
             Inl e \<Rightarrow> Inl e
           | Inr summary \<Rightarrow>
               if int (length channels) \<noteq> total_channels summary
               then Inr \<lparr>passed = False,
                         message = ''Channel count mismatch: DB has '' @ showNat (length channels)
                                   @ '', summary shows '' @ showInt (total_channels summary),
                         details = []\<rparr>
               else Inr \<lparr>passed = True,
                         message = ''Channel count verified: '' @ showNat (length channels)
                                   @ '' channels'',
                         details = []\<rparr>))"

text \<open>\<open>summary.videos_per_channel[slug] || 0\<close>.\<close>

definition summaryCountOf :: "summary \<Rightarrow> string \<Rightarrow> int" where
  "summaryCountOf summary slug =
     (case videos_per_channel summary slug of None \<Rightarrow> 0 | Some n \<Rightarrow> n)"

text \<open>The loop of \<open>verifyVideoCounts\<close> (lines 39 to 49).\<close>

fun tallyVideos :: "summary \<Rightarrow> (channel_row \<times> media_row list) list \<Rightarrow> nat \<times> string list
                     \<Rightarrow> nat \<times> string list" where
  "tallyVideos summary [] acc = acc"
| "tallyVideos summary ((channel, videos) # rest) (totalDbVideos, channelMismatches) =
     (let dbCount = length videos;
          summaryCount = summaryCountOf summary (c_slug channel)
      in tallyVideos summary rest
           (totalDbVideos + dbCount,
            if int dbCount \<noteq> summaryCount
            then channelMismatches @
                   [c_slug channel @ '': DB='' @ showNat dbCount @ '', Summary=''
                      @ showInt summaryCount]
            else channelMismatches))"

definition verifyVideoCounts :: "backend \<Rightarrow> store \<Rightarrow> files \<Rightarrow> error + VerificationResult" where
  "verifyVideoCounts bk st fs =
     (case getAllChannels bk st of
        Inl e \<Rightarrow> Inl e
      | Inr channels \<Rightarrow>
          (case readSummary fs of
             Inl e \<Rightarrow> Inl e
           | Inr summary \<Rightarrow>
               (case mediaOfChannels bk st channels of
                  Inl e \<Rightarrow> Inl e
                | Inr per \<Rightarrow>
                    (let (totalDbVideos, channelMismatches) = tallyVideos summary per (0, [])
                     in if int totalDbVideos \<noteq> total_videos summary
                        then Inr \<lparr>passed = False,
                                  message = ''Total video count mismatch: DB has ''
                                            @ showNat totalDbVideos @ '', summary shows ''
                                            @ showInt (total_videos summary),
                                  details = channelMismatches\<rparr>
                        else if length channelMismatches > 0
                        then Inr \<lparr>passed = False,
                                  message = ''Channel video count mismatches found'',
                                  details = channelMismatches\<rparr>
                        else Inr \<lparr>passed = True,
                                  message = ''Video count verified: '' @ showNat totalDbVideos
                                            @ '' videos across all channels'',
                                  details = []\<rparr>))))"

text \<open>The test of line 93: a URL is there and lacks the watch-link text.\<close>

definition invalidYouTubeUrl :: "media_row \<Rightarrow> bool" where
  "invalidYouTubeUrl video =
     (case truthy (m_youtube_url video) of
        None \<Rightarrow> False
      | Some url \<Rightarrow> \<not> str_includes url ''youtube.com/watch?v='')"

definition negative :: "int option \<Rightarrow> bool" where
  "negative x = (case x of None \<Rightarrow> False | Some n \<Rightarrow> n < 0)"

definition videoIssues :: "string \<Rightarrow> media_row \<Rightarrow> string list" where
  "videoIssues slug video =
     (if m_id video = [] then [''Video missing ID in channel '' @ slug] else [])
     @ (if m_title video = []
        then [''Video '' @ m_id video @ '' missing title in channel '' @ slug] else [])
     @ (if truthy (m_date video) = None
        then [''Video '' @ m_id video @ '' missing date in channel '' @ slug] else [])
     @ (if invalidYouTubeUrl video
        then [''Video '' @ m_id video @ '' has invalid YouTube URL format in channel '' @ slug]
        else [])
     @ (if negative (m_views video)
        then [''Video '' @ m_id video @ '' has negative views in channel '' @ slug] else [])
     @ (if negative (m_likes video)
        then [''Video '' @ m_id video @ '' has negative likes in channel '' @ slug] else [])
     @ (if negative (m_comments video)
        then [''Video '' @ m_id video @ '' has negative comments in channel '' @ slug] else [])"

definition channelIssues :: "channel_row \<times> media_row list \<Rightarrow> string list" where
  "channelIssues cv =
     (case cv of (channel, videos) \<Rightarrow>
        (if truthy (c_youtube_id channel) = None
         then [''Channel '' @ c_slug channel @ '' missing youtube_id''] else [])
        @ concat (map (videoIssues (c_slug channel)) videos))"

definition verifyDataIntegrity :: "backend \<Rightarrow> store \<Rightarrow> error + VerificationResult" where
  "verifyDataIntegrity bk st =
     (case getAllChannels bk st of
        Inl e \<Rightarrow> Inl e
      | Inr channels \<Rightarrow>
          (case mediaOfChannels bk st channels of
             Inl e \<Rightarrow> Inl e
           | Inr per \<Rightarrow>
               (let issues = concat (map channelIssues per)
                in if length issues > 0
                   then Inr \<lparr>passed = False,
                             message = ''Data integrity issues found: '' @ showNat (length issues)
                                       @ '' problems'',
                             details = take 20 issues\<rparr>
                   else Inr \<lparr>passed = True,
                             message = ''Data integrity verified: No issues found across ''
                                       @ showNat (length channels) @ '' channels'',
                             details = []\<rparr>)))"

text \<open>\<open>str.split('\n')\<close>: the pieces between the newlines; never an empty list.\<close>

fun splitLines :: "string \<Rightarrow> string list" where
  "splitLines [] = [[]]"
| "splitLines (c # cs) =
     (if c = newline then [] # splitLines cs
      else (case splitLines cs of l # ls \<Rightarrow> (c # l) # ls | [] \<Rightarrow> [[c]]))"

text \<open>\<open>str.trim()\<close>.\<close>

definition trim :: "string \<Rightarrow> string" where
  "trim s = rev (dropWhile isWhiteSpace (rev (dropWhile isWhiteSpace s)))"

definition isIdChar :: "char \<Rightarrow> bool" where
  "isIdChar c =
     (c \<in> set ''abcdefghijklmnopqrstuvwxyzABCDEFGHIJKLMNOPQRSTUVWXYZ0123456789_-'')"

text \<open>\<open>/^[a-zA-Z0-9_-]{11},/.test(line)\<close>.\<close>

definition startsLikeRecord :: "string \<Rightarrow> bool" where
  "startsLikeRecord line =
     (length line \<ge> 12 \<and> list_all isIdChar (take 11 line) \<and> line ! 11 = comma)"

text \<open>The loop of \<open>parseCSVRecordCount\<close> over the lines after the header.\<close>

fun countRecords :: "string list \<Rightarrow> nat \<Rightarrow> bool \<Rightarrow> nat" where
  "countRecords [] recordCount inQuotes = recordCount"
| "countRecords (l # ls) recordCount inQuotes =
     (let line = trim l
      in if line = [] then countRecords ls recordCount inQuotes
         else (let recordCount' =
                     (if \<not> inQuotes \<and> startsLikeRecord line then recordCount + 1
                      else recordCount);
                   quoteCount = length (filter (\<lambda>c. c = dquote) line)
               in countRecords ls recordCount'
                    (if quoteCount mod 2 = 1 then \<not> inQuotes else inQuotes)))"

definition parseCSVRecordCount :: "string \<Rightarrow> nat" where
  "parseCSVRecordCount csvContent = countRecords (drop 1 (splitLines csvContent)) 0 False"

definition missingFiles :: "files \<Rightarrow> string list" where
  "missingFiles fs =
     (if export_channels_csv fs = None then [''Missing file: export_channels.csv''] else [])
     @ (if export_videos_csv fs = None then [''Missing file: export_videos.csv''] else [])
     @ (if export_channel_statistics_csv fs = None
        then [''Missing file: export_channel_statistics.csv''] else [])
     @ (if export_summary_json fs = None then [''Missing file: export_summary.json''] else [])"

definition verifyCSVFiles :: "files \<Rightarrow> error + VerificationResult" where
  "verifyCSVFiles fs =
     (case (export_channels_csv fs, export_videos_csv fs, export_channel_statistics_csv fs,
            export_summary_json fs) of
        (Some channelsContent, Some videosContent, Some statisticsContent, Some summary) \<Rightarrow>
          (let channelLines =
                 int (length (filter (\<lambda>line. trim line \<noteq> []) (splitLines channelsContent))) - 1;
               videoRecords = parseCSVRecordCount videosContent;
               issues =
                 (if channelLines \<noteq> total_channels summary
                  then [''Channels CSV record count ('' @ showInt channelLines
                          @ '') doesn't match summary ('' @ showInt (total_channels summary)
                          @ '')'']
                  else [])
                 @ (if int videoRecords \<noteq> total_videos summary
                    then [''Videos CSV record count ('' @ showNat videoRecords
                            @ '') doesn't match summary ('' @ showInt (total_videos summary)
                            @ '')'']
                    else [])
           in if length issues > 0
              then Inr \<lparr>passed = False, message = ''CSV file verification failed'',
                        details = issues\<rparr>
              else Inr \<lparr>passed = True,
                        message = ''CSV files verified: All files present and record counts match (''
                                  @ showInt (total_channels summary) @ '' channels, ''
                                  @ showInt (total_videos summary) @ '' videos)'',
                        details = []\<rparr>)
      | _ \<Rightarrow> Inr \<lparr>passed = False, message = ''CSV export files missing'',
                  details = missingFiles fs\<rparr>)"

text \<open>
  \<open>runFullVerification\<close>: the four checks in order; one that throws is recorded as failed
  and the next one still runs.
\<close>

definition caught :: "error + VerificationResult \<Rightarrow> VerificationResult" where
  "caught r =
     (case r of
        Inr result \<Rightarrow> result
      | Inl (Error msg) \<Rightarrow>
          \<lparr>passed = False, message = ''Test failed with error: Error: '' @ msg,
           details = [msg]\<rparr>)"

record report =
  passed_tests :: nat
  total_tests :: nat
  all_passed :: bool
  results :: "VerificationResult list"

definition runFullVerification :: "backend \<Rightarrow> store \<Rightarrow> files \<Rightarrow> report" where
  "runFullVerification bk st fs =
     (let results = [caught (verifyChannelCounts bk st fs),
                     caught (verifyVideoCounts bk st fs),
                     caught (verifyDataIntegrity bk st),
                     caught (verifyCSVFiles fs)];
          passedCount = length (filter passed results);
          total = length results
      in \<lparr>passed_tests = passedCount, total_tests = total, all_passed = (passedCount = total),
          results = results\<rparr>)"

section \<open>fetch-youtube-videos.ts: the upload listing\<close>

record YouTubeVideoStatistics =
  viewCount :: "string option"
  likeCount :: "string option"
  commentCount :: "string option"

text \<open>A record of the detail request; \<open>snippet\<close> and \<open>contentDetails\<close> are flattened, and
  a thumbnail is the \<open>url\<close> of its entry.\<close>

record YouTubeVideo =
  yv_id :: string
  yv_title :: string
  yv_description :: string
  yv_publishedAt :: string
  yv_thumbnails :: Thumbnails
  yv_duration :: string
  yv_statistics :: "YouTubeVideoStatistics option"

text \<open>\<open>parseInt(statistics.viewCount || '0')\<close>, with \<open>statistics = video.statistics || {}\<close>.\<close>

definition statOf :: "YouTubeVideoStatistics option \<Rightarrow> (YouTubeVideoStatistics \<Rightarrow> string option)
                       \<Rightarrow> int option" where
  "statOf statistics field =
     parseInt (orElse (case statistics of None \<Rightarrow> None | Some s \<Rightarrow> field s) ''0'')"

text \<open>The object pushed at lines 228 to 239, for the calendar date \<open>date\<close>.\<close>

definition toVideoData :: "string \<Rightarrow> YouTubeVideo \<Rightarrow> VideoData" where
  "toVideoData date video =
     \<lparr>vd_id = yv_id video,
      vd_title = yv_title video,
      vd_date = date,
      vd_contentType = Some ''podcast'',
      vd_duration = Some (formatDuration (yv_duration video)),
      vd_description = Some (yv_description video),
      vd_thumbnails =
        Some \<lparr>th_default = Some (orElse (th_default (yv_thumbnails video)) []),
              th_medium = Some (orElse (th_medium (yv_thumbnails video)) []),
              th_high = Some (orElse (th_high (yv_thumbnails video)) []),
              th_standard = Some (orElse (th_standard (yv_thumbnails video)) []),
              th_maxres = Some (orElse (th_maxres (yv_thumbnails video)) [])\<rparr>,
      vd_views = statOf (yv_statistics video) viewCount,
      vd_likes = statOf (yv_statistics video) likeCount,
      vd_comments = statOf (yv_statistics video) commentCount\<rparr>"

text \<open>\<open>limitVideos && videos.length >= limitVideos\<close>: a limit of \<open>0\<close> is no limit.\<close>

definition limitReached :: "nat option \<Rightarrow> VideoData list \<Rightarrow> bool" where
  "limitReached limitVideos videos =
     (case limitVideos of None \<Rightarrow> False | Some l \<Rightarrow> l \<noteq> 0 \<and> length videos \<ge> l)"

text \<open>
  How the \<open>for\<close> loop over one page of details ends: it runs to the end of the page, it
  returns from the function at the limit, or \<open>toISOString\<close> throws on a publish time that
  is no date and the \<open>catch\<close> leaves the listing. \<open>toDate\<close> is
  \<open>new Date(publishedAt).toISOString().split('T')[0]\<close>, \<open>None\<close> where it throws.
\<close>

datatype loop_end = Completed "VideoData list" | Returned "VideoData list" | Threw "VideoData list"

fun videosOf :: "loop_end \<Rightarrow> VideoData list" where
  "videosOf (Completed videos) = videos"
| "videosOf (Returned videos) = videos"
| "videosOf (Threw videos) = videos"

fun processItems :: "(string \<Rightarrow> string option) \<Rightarrow> nat option \<Rightarrow> YouTubeVideo list
                      \<Rightarrow> VideoData list \<Rightarrow> loop_end" where
  "processItems toDate limitVideos [] videos = Completed videos"
| "processItems toDate limitVideos (video # rest) videos =
     (let durationSeconds = parseDurationToSeconds (yv_duration video)
      in if durationSeconds < 120 then processItems toDate limitVideos rest videos
         else (case toDate (yv_publishedAt video) of
                 None \<Rightarrow> Threw videos
               | Some date \<Rightarrow>
                   (let videos' = videos @ [toVideoData date video]
                    in if limitReached limitVideos videos' then Returned videos'
                       else processItems toDate limitVideos rest videos')))"

text \<open>
  The remote catalogue: what each request answers. \<open>uploadsPlaylist\<close> is the result of
  \<open>getUploadsPlaylistId\<close>; a playlist page carries \<open>items\<close> (each with the video id it may
  name) and \<open>nextPageToken\<close>; a failed \<open>fetch\<close> or \<open>json()\<close> is the \<open>Failed\<close> answer.
\<close>

datatype playlist_response = PlaylistFailed | PlaylistPage "string option list option" "string option"

datatype details_response = DetailsFailed | Details "YouTubeVideo list option"

record remote =
  uploadsPlaylist :: "string \<Rightarrow> string option"
  playlistItems :: "string \<Rightarrow> string option \<Rightarrow> playlist_response"
  videoDetails :: "string list \<Rightarrow> details_response"
  toISODate :: "string \<Rightarrow> string option"

text \<open>The \<open>while (true)\<close> loop; \<open>None\<close> is a listing that never ends.\<close>

partial_function (option) listUploads :: "remote \<Rightarrow> nat option \<Rightarrow> string \<Rightarrow> string option
                                            \<Rightarrow> VideoData list \<Rightarrow> VideoData list option" where
  "listUploads rm limitVideos uploadsPlaylistId nextPageToken videos =
     (case playlistItems rm uploadsPlaylistId nextPageToken of
        PlaylistFailed \<Rightarrow> Some videos
      | PlaylistPage items next \<Rightarrow>
          (case items of
             None \<Rightarrow> Some videos
           | Some its \<Rightarrow>
               (let videoIds = List.map_filter truthy its
                in if videoIds = [] then Some videos
                   else (case videoDetails rm videoIds of
                           DetailsFailed \<Rightarrow> Some videos
                         | Details detailItems \<Rightarrow>
                             (case processItems (toISODate rm) limitVideos
                                     (case detailItems of None \<Rightarrow> [] | Some ds \<Rightarrow> ds) videos of
                                Returned vs \<Rightarrow> Some vs
                              | Threw vs \<Rightarrow> Some vs
                              | Completed vs \<Rightarrow>
                                  (case truthy next of
                                     None \<Rightarrow> Some vs
                                   | Some token \<Rightarrow>
                                       listUploads rm limitVideos uploadsPlaylistId (Some token)
                                         vs))))))"

definition getVideosFromChannel :: "remote \<Rightarrow> string \<Rightarrow> nat option \<Rightarrow> VideoData list option" where
  "getVideosFromChannel rm channelId limitVideos =
     (case truthy (uploadsPlaylist rm channelId) of
        None \<Rightarrow> Some []
      | Some uploadsPlaylistId \<Rightarrow> listUploads rm limitVideos uploadsPlaylistId None [])"

section \<open>A reader for the delimited text\<close>

definition carriageReturn :: char where
  "carriageReturn = CHR 0x0D"

text \<open>
  Modelled from the spec: a conforming reader of one field of the delimited text. The
  sources write the text and never read a field back, so the reader follows the common
  format (RFC 4180) and not the writer: a record ends at a line break, which is a line
  feed, a carriage return or both, and a field ends at a comma or where the record
  ends. A field that opens with a quote runs to its closing quote, a doubled quote
  inside standing for one quote, and must be followed by the end of a field; any other
  field runs up to the next comma or line break and holds no quote. The result is the
  field and the text left after it; \<open>None\<close> is malformed text.
\<close>

fun readQuoted :: "string \<Rightarrow> (string \<times> string) option" where
  "readQuoted [] = None"
| "readQuoted [c] = (if c = dquote then Some ([], []) else None)"
| "readQuoted (c # d # cs) =
     (if c = dquote
      then (if d = dquote
            then (case readQuoted cs of None \<Rightarrow> None | Some (f, r) \<Rightarrow> Some (dquote # f, r))
            else Some ([], d # cs))
      else (case readQuoted (d # cs) of None \<Rightarrow> None | Some (f, r) \<Rightarrow> Some (c # f, r)))"

definition endsField :: "char \<Rightarrow> bool" where
  "endsField c = (c = comma \<or> c = newline \<or> c = carriageReturn)"

definition atFieldEnd :: "string \<Rightarrow> bool" where
  "atFieldEnd r = (case r of [] \<Rightarrow> True | c # _ \<Rightarrow> endsField c)"

definition readField :: "string \<Rightarrow> (string \<times> string) option" where
  "readField s =
     (case s of
        [] \<Rightarrow> Some ([], [])
      | c # cs \<Rightarrow>
          if c = dquote
          then (case readQuoted cs of
                  None \<Rightarrow> None
                | Some (f, r) \<Rightarrow> if atFieldEnd r then Some (f, r) else None)
          else (let f = takeWhile (\<lambda>x. \<not> endsField x) s;
                    r = dropWhile (\<lambda>x. \<not> endsField x) s
                in if dquote \<in> set f then None else Some (f, r)))"

section \<open>The reconciliation scenario\<close>

text \<open>
  A store that carries out every request, two channels \<open>A\<close> and \<open>B\<close> written by
  \<open>upsertChannel\<close>, five media items synced into \<open>A\<close> and three into \<open>B\<close> by
  \<open>insertNewMediaItems\<close>, and the export files written from that store.
\<close>

definition okBackend :: backend where
  "okBackend =
     \<lparr>select_error = (\<lambda>st table. None),
      upsert_channel_error = (\<lambda>st p. None),
      update_media_error = (\<lambda>st vid u. None),
      insert_media_error = (\<lambda>st recs. None),
      upsert_stats_error = (\<lambda>st p. None),
      default_visible = Some True,
      default_created_at = Some ''2024-05-01''\<rparr>"

definition emptyStore :: store where
  "emptyStore = \<lparr>tv_channels = [], tv_media_items = [], tv_channel_statistics = []\<rparr>"

definition scenarioVideo :: "string \<Rightarrow> int \<Rightarrow> VideoData" where
  "scenarioVideo vid n =
     \<lparr>vd_id = vid, vd_title = ''Episode'', vd_date = ''2024-04-30'',
      vd_contentType = None, vd_duration = Some ''12:00'', vd_description = None,
      vd_thumbnails = None, vd_views = Some n, vd_likes = Some 1, vd_comments = None\<rparr>"

definition scenarioStore :: store where
  "scenarioStore =
     (let st1 = snd (upsertChannel okBackend
                       \<lparr>cd_slug = ''A'', cd_name = ''Alpha'', cd_youtubeId = Some ''UCa''\<rparr>
                       emptyStore);
          st2 = snd (upsertChannel okBackend
                       \<lparr>cd_slug = ''B'', cd_name = ''Beta'', cd_youtubeId = Some ''UCb''\<rparr> st1);
          st3 = snd (insertNewMediaItems okBackend ''A''
                       [scenarioVideo ''aaaaaaaaaa1'' 10, scenarioVideo ''aaaaaaaaaa2'' 20,
                        scenarioVideo ''aaaaaaaaaa3'' 30, scenarioVideo ''aaaaaaaaaa4'' 40,
                        scenarioVideo ''aaaaaaaaaa5'' 50] st2)
      in snd (insertNewMediaItems okBackend ''B''
                [scenarioVideo ''bbbbbbbbbb1'' 10, scenarioVideo ''bbbbbbbbbb2'' 20,
                 scenarioVideo ''bbbbbbbbbb3'' 30] st3))"

definition written :: "error + 'a \<Rightarrow> 'a option" where
  "written r = (case r of Inl e \<Rightarrow> None | Inr x \<Rightarrow> Some x)"

definition scenarioFiles :: files where
  "scenarioFiles =
     \<lparr>export_channels_csv = written (exportChannelsToCSV okBackend scenarioStore),
      export_videos_csv = written (exportVideosToCSV okBackend scenarioStore),
      export_channel_statistics_csv = Some (arrayToCSV [] statisticsHeaders),
      export_summary_json =
        written (generateSummaryReport okBackend ''2024-05-01T10:00:00.000Z'' scenarioStore)\<rparr>"

text \<open>The same files with the summary's \<open>total_videos\<close> overwritten.\<close>

definition withTotalVideos :: "int \<Rightarrow> files \<Rightarrow> files" where
  "withTotalVideos n fs =
     fs\<lparr>export_summary_json := map_option (\<lambda>s. s\<lparr>total_videos := n\<rparr>) (export_summary_json fs)\<rparr>"

section \<open>Notions used to state the properties\<close>

text \<open>A duration token written from its components: \<open>PT\<close>, then the hours, minutes and
  seconds that are present, each a decimal number and its unit letter.\<close>

definition component :: "nat option \<Rightarrow> char \<Rightarrow> string" where
  "component g u = (case g of None \<Rightarrow> [] | Some n \<Rightarrow> showNat n @ [u])"

definition durationToken :: "nat option \<Rightarrow> nat option \<Rightarrow> nat option \<Rightarrow> string" where
  "durationToken h m s =
     ''PT'' @ component h CHR ''H'' @ component m CHR ''M'' @ component s CHR ''S''"

definition amount :: "nat option \<Rightarrow> nat" where
  "amount g = (case g of None \<Rightarrow> 0 | Some n \<Rightarrow> n)"

text \<open>A number below 100 written with exactly two digits.\<close>

definition twoDigits :: "nat \<Rightarrow> string" where
  "twoDigits n = [digitChar (n div 10), digitChar (n mod 10)]"

text \<open>The field \<open>He said "hi", ok\<close> and its serialization \<open>"He said ""hi"", ok"\<close>.\<close>

definition sampleField :: string where
  "sampleField = ''He said '' @ [dquote] @ ''hi'' @ [dquote] @ '', ok''"

text \<open>The field \<open>a\<close>, carriage return, \<open>b\<close>, and the same with a comma after it.\<close>

definition crField :: string where
  "crField = ''a'' @ [carriageReturn] @ ''b''"

definition crCommaField :: string where
  "crCommaField = ''a'' @ [carriageReturn] @ ''b,''"

definition sampleSerialized :: string where
  "sampleSerialized =
     [dquote] @ ''He said '' @ [dquote, dquote] @ ''hi'' @ [dquote, dquote] @ '', ok''
       @ [dquote]"

text \<open>A store with one channel whose visibility is \<open>null\<close>, and the summary written
  from it.\<close>

definition nullChannel :: channel_row where
  "nullChannel = \<lparr>c_slug = ''A'', c_name = ''Alpha'', c_youtube_id = Some ''UCa'',
                   c_visible = None, c_created_at = None\<rparr>"

definition nullVisibilityStore :: store where
  "nullVisibilityStore =
     \<lparr>tv_channels = [nullChannel], tv_media_items = [], tv_channel_statistics = []\<rparr>"

definition nullVisibilitySummary :: summary where
  "nullVisibilitySummary =
     \<lparr>total_channels = 1, visible = 0, hidden = 1, null_visibility = 1,
      channels_with_youtube_id = 1, total_videos = 0,
      videos_per_channel = [''A'' \<mapsto> 0], export_timestamp = []\<rparr>"


text \<open>The ids stored for a channel: the set \<open>E\<close> that \<open>insertNewMediaItems\<close> loads.\<close>

definition existingIdsOf :: "store \<Rightarrow> string \<Rightarrow> string set" where
  "existingIdsOf st slug =
     set (map m_id (filter (\<lambda>r. m_channel_slug r = Some slug) (tv_media_items st)))"

text \<open>A row with its three counters blanked: what is left are the descriptive columns.\<close>

definition descriptive :: "media_row \<Rightarrow> media_row" where
  "descriptive r = r\<lparr>m_views := None, m_likes := None, m_comments := None\<rparr>"

text \<open>A row with its counters overwritten from a video of the batch.\<close>

definition withCounters :: "VideoData \<Rightarrow> media_row \<Rightarrow> media_row" where
  "withCounters v r =
     r\<lparr>m_views := Some (orZero (vd_views v)), m_likes := Some (orZero (vd_likes v)),
       m_comments := Some (orZero (vd_comments v))\<rparr>"

text \<open>A row as stored after the insert: the payload with \<open>created_at\<close> at its default.\<close>

definition stored :: "backend \<Rightarrow> media_row \<Rightarrow> media_row" where
  "stored bk r = r\<lparr>m_created_at := default_created_at bk\<rparr>"

text \<open>
  A second sync of channel \<open>A\<close>: the store holds two items, and the batch brings one of
  them again, with a new title and new counters, and one item not seen before.
\<close>

definition syncStore :: store where
  "syncStore =
     snd (insertNewMediaItems okBackend ''A''
            [scenarioVideo ''aaaaaaaaaa1'' 10, scenarioVideo ''aaaaaaaaaa2'' 20] emptyStore)"

definition syncBatch :: "VideoData list" where
  "syncBatch =
     [(scenarioVideo ''aaaaaaaaaa1'' 77)\<lparr>vd_title := ''Renamed'', vd_likes := None\<rparr>,
      scenarioVideo ''aaaaaaaaaa9'' 5]"

definition syncResult :: store where
  "syncResult = snd (insertNewMediaItems okBackend ''A'' syncBatch syncStore)"







text \<open>
  A store that refuses every counter update, and one that refuses every bulk insert,
  each with the message of a statement timeout.
\<close>

definition refusingUpdates :: backend where
  "refusingUpdates =
     okBackend\<lparr>update_media_error := (\<lambda>st vid u. Some ''canceling statement due to timeout'')\<rparr>"

definition refusingInserts :: backend where
  "refusingInserts =
     okBackend\<lparr>insert_media_error := (\<lambda>st recs. Some ''canceling statement due to timeout'')\<rparr>"


text \<open>A record whose parsed duration is at least 120 seconds.\<close>

definition longEnough :: "YouTubeVideo \<Rightarrow> bool" where
  "longEnough video = (120 \<le> parseDurationToSeconds (yv_duration video))"

text \<open>How many more videos the limit lets in; \<open>None\<close> is any number.\<close>

definition room :: "nat option \<Rightarrow> VideoData list \<Rightarrow> nat option" where
  "room limitVideos videos =
     (case limitVideos of
        None \<Rightarrow> None
      | Some l \<Rightarrow> if l = 0 then None else Some (l - length videos))"

definition upTo :: "nat option \<Rightarrow> 'a list \<Rightarrow> 'a list" where
  "upTo n xs = (case n of None \<Rightarrow> xs | Some k \<Rightarrow> take k xs)"

text \<open>Two uploads, one of 1 minute 59 seconds and one of exactly 2 minutes.\<close>

definition clip119 :: YouTubeVideo where
  "clip119 =
     \<lparr>yv_id = ''aaaaaaaaaa1'', yv_title = ''Teaser'', yv_description = ''short'',
      yv_publishedAt = ''2024-04-30T10:00:00Z'',
      yv_thumbnails = \<lparr>th_default = Some ''d1.jpg'', th_medium = None, th_high = None,
                        th_standard = None, th_maxres = None\<rparr>,
      yv_duration = ''PT1M59S'', yv_statistics = None\<rparr>"

definition episode120 :: YouTubeVideo where
  "episode120 =
     \<lparr>yv_id = ''aaaaaaaaaa2'', yv_title = ''Episode'', yv_description = ''long'',
      yv_publishedAt = ''2024-04-30T11:00:00Z'',
      yv_thumbnails = \<lparr>th_default = Some ''d2.jpg'', th_medium = None,
                        th_high = Some ''h2.jpg'', th_standard = None, th_maxres = None\<rparr>,
      yv_duration = ''PT2M'',
      yv_statistics = Some \<lparr>viewCount = Some ''42'', likeCount = None,
                             commentCount = Some ''7''\<rparr>\<rparr>"

definition episode300 :: YouTubeVideo where
  "episode300 =
     \<lparr>yv_id = ''aaaaaaaaaa3'', yv_title = ''Second episode'', yv_description = ''longer'',
      yv_publishedAt = ''2024-05-02T09:30:00Z'',
      yv_thumbnails = \<lparr>th_default = None, th_medium = None, th_high = None,
                        th_standard = None, th_maxres = None\<rparr>,
      yv_duration = ''PT5M'', yv_statistics = None\<rparr>"

text \<open>A record of three minutes whose publish time is no date.\<close>

definition undatedEpisode :: YouTubeVideo where
  "undatedEpisode =
     \<lparr>yv_id = ''aaaaaaaaaa4'', yv_title = ''Announced'', yv_description = ''later'',
      yv_publishedAt = ''soon'',
      yv_thumbnails = \<lparr>th_default = None, th_medium = None, th_high = None,
                        th_standard = None, th_maxres = None\<rparr>,
      yv_duration = ''PT3M'', yv_statistics = None\<rparr>"

text \<open>
  A remote with two pages: the first holds the two uploads above and names the token of
  the second, which holds a third upload of five minutes and names no further page. A
  publish time that starts with a four-digit year converts to its first ten characters;
  any other throws.
\<close>

definition pagedRemote :: remote where
  "pagedRemote =
     \<lparr>uploadsPlaylist = (\<lambda>channelId. Some ''UUa''),
      playlistItems =
        (\<lambda>playlistId pageToken.
           if pageToken = None
           then PlaylistPage (Some [Some ''aaaaaaaaaa1'', Some ''aaaaaaaaaa2'']) (Some ''p2'')
           else if pageToken = Some ''p2''
           then PlaylistPage (Some [Some ''aaaaaaaaaa3'']) None
           else PlaylistFailed),
      videoDetails =
        (\<lambda>videoIds.
           if videoIds = [''aaaaaaaaaa1'', ''aaaaaaaaaa2'']
           then Details (Some [clip119, episode120])
           else if videoIds = [''aaaaaaaaaa3'']
           then Details (Some [episode300])
           else DetailsFailed),
      toISODate =
        (\<lambda>publishedAt.
           if 10 \<le> length publishedAt \<and> list_all isDigit (take 4 publishedAt)
           then Some (take 10 publishedAt) else None)\<rparr>"

definition pagedPages :: "YouTubeVideo list list" where
  "pagedPages = [[clip119, episode120], [episode300]]"

text \<open>The same remote with the undated record first on its first page.\<close>

definition undatedRemote :: remote where
  "undatedRemote =
     pagedRemote\<lparr>videoDetails := (\<lambda>videoIds. Details (Some [undatedEpisode, episode120]))\<rparr>"

text \<open>The videos listed for the two long uploads.\<close>

definition listedEpisode120 :: VideoData where
  "listedEpisode120 =
     \<lparr>vd_id = ''aaaaaaaaaa2'', vd_title = ''Episode'', vd_date = ''2024-04-30'',
      vd_contentType = Some ''podcast'', vd_duration = Some ''2:00'',
      vd_description = Some ''long'',
      vd_thumbnails = Some \<lparr>th_default = Some ''d2.jpg'', th_medium = Some [],
                              th_high = Some ''h2.jpg'', th_standard = Some [],
                              th_maxres = Some []\<rparr>,
      vd_views = Some 42, vd_likes = Some 0, vd_comments = Some 7\<rparr>"

definition listedEpisode300 :: VideoData where
  "listedEpisode300 =
     \<lparr>vd_id = ''aaaaaaaaaa3'', vd_title = ''Second episode'', vd_date = ''2024-05-02'',
      vd_contentType = Some ''podcast'', vd_duration = Some ''5:00'',
      vd_description = Some ''longer'',
      vd_thumbnails = Some \<lparr>th_default = Some [], th_medium = Some [], th_high = Some [],
                              th_standard = Some [], th_maxres = Some []\<rparr>,
      vd_views = Some 0, vd_likes = Some 0, vd_comments = Some 0\<rparr>"

text \<open>
  The pages a remote serves from a page token on, each page as the records of its
  detail answer: every page but the last names the token of the next, and the listing
  ends after the last, which names no token or is followed by a request that fails or
  brings no video id.
\<close>

definition stopsListing :: "remote \<Rightarrow> string \<Rightarrow> string option \<Rightarrow> bool" where
  "stopsListing rm playlistId pageToken =
     (case playlistItems rm playlistId pageToken of
        PlaylistFailed \<Rightarrow> True
      | PlaylistPage None next \<Rightarrow> True
      | PlaylistPage (Some its) next \<Rightarrow>
          List.map_filter truthy its = []
          \<or> videoDetails rm (List.map_filter truthy its) = DetailsFailed)"

fun servesPages :: "remote \<Rightarrow> string \<Rightarrow> string option \<Rightarrow> YouTubeVideo list list \<Rightarrow> bool" where
  "servesPages rm playlistId pageToken [] = stopsListing rm playlistId pageToken"
| "servesPages rm playlistId pageToken (ds # rest) =
     (case playlistItems rm playlistId pageToken of
        PlaylistFailed \<Rightarrow> False
      | PlaylistPage None next \<Rightarrow> False
      | PlaylistPage (Some its) next \<Rightarrow>
          List.map_filter truthy its \<noteq> []
          \<and> (case videoDetails rm (List.map_filter truthy its) of
                DetailsFailed \<Rightarrow> False
              | Details detailItems \<Rightarrow>
                  ds = (case detailItems of None \<Rightarrow> [] | Some d \<Rightarrow> d))
          \<and> (case truthy next of
                None \<Rightarrow> rest = []
              | Some token \<Rightarrow> servesPages rm playlistId (Some token) rest))"

text \<open>
  The records a listing returns videos for: those of at least 120 seconds, up to the
  first of them whose publish time is no date, and cut at the limit.
\<close>

definition keptRecords :: "(string \<Rightarrow> string option) \<Rightarrow> YouTubeVideo list \<Rightarrow> YouTubeVideo list" where
  "keptRecords toDate items =
     takeWhile (\<lambda>video. toDate (yv_publishedAt video) \<noteq> None) (filter longEnough items)"

definition listedRecords :: "remote \<Rightarrow> nat option \<Rightarrow> YouTubeVideo list list \<Rightarrow> YouTubeVideo list" where
  "listedRecords rm limitVideos pages =
     upTo (room limitVideos []) (keptRecords (toISODate rm) (concat pages))"

text \<open>The video pushed for a record whose publish time is a date.\<close>

definition madeFrom :: "(string \<Rightarrow> string option) \<Rightarrow> YouTubeVideo \<Rightarrow> VideoData" where
  "madeFrom toDate video =
     toVideoData (case toDate (yv_publishedAt video) of None \<Rightarrow> [] | Some date \<Rightarrow> date) video"

text \<open>A record whose numbers are in the range where the code computes exactly.\<close>

definition exactNumber :: "int option \<Rightarrow> bool" where
  "exactNumber x = (case x of None \<Rightarrow> True | Some n \<Rightarrow> \<bar>n\<bar> < int exactLimit)"

definition exactRecord :: "YouTubeVideo \<Rightarrow> bool" where
  "exactRecord video =
     (parseDurationToSeconds (yv_duration video) < exactLimit
      \<and> exactNumber (statOf (yv_statistics video) viewCount)
      \<and> exactNumber (statOf (yv_statistics video) likeCount)
      \<and> exactNumber (statOf (yv_statistics video) commentCount))"

text \<open>What the scenario's store and summary hold for a channel.\<close>

definition storedCount :: "store \<Rightarrow> string \<Rightarrow> nat" where
  "storedCount st slug =
     length (filter (\<lambda>r. m_channel_slug r = Some slug) (tv_media_items st))"

definition summaryCount :: "files \<Rightarrow> string \<Rightarrow> int option" where
  "summaryCount fs slug =
     (case export_summary_json fs of None \<Rightarrow> None | Some s \<Rightarrow> videos_per_channel s slug)"

text \<open>The outcome of the four checks, in the order they run.\<close>

definition outcomes :: "backend \<Rightarrow> store \<Rightarrow> files \<Rightarrow> bool list" where
  "outcomes bk st fs = map passed (results (runFullVerification bk st fs))"

text \<open>
  A listed video that comes from a record of some detail answer of the remote, the
  record's parsed duration being at least 120 seconds.
\<close>

definition fromLongRecord :: "remote \<Rightarrow> VideoData \<Rightarrow> bool" where
  "fromLongRecord rm x =
     (\<exists>videoIds ds video date.
        videoDetails rm videoIds = Details (Some ds) \<and> video \<in> set ds \<and> longEnough video
        \<and> toISODate rm (yv_publishedAt video) = Some date \<and> x = toVideoData date video)"

definition undatedPages :: "YouTubeVideo list list" where
  "undatedPages = [[undatedEpisode, episode120], [undatedEpisode, episode120]]"

section \<open>The media-item sync: what a run does to the rows\<close>


lemma splitVideos_new:
  "snd (splitVideos slug E vs) = map (newRecord slug) (filter (\<lambda>v. vd_id v \<notin> E) vs)"
  by (induction vs) (simp_all add: split_beta Let_def)





text \<open>One update request.\<close>

lemma update_media_row_other_tables:
  "tv_channels (snd (update_media_row bk st vid u)) = tv_channels st"
  "tv_channel_statistics (snd (update_media_row bk st vid u)) = tv_channel_statistics st"
  by (simp_all add: update_media_row_def split: option.splits)

lemma update_media_row_length:
  "length (tv_media_items (snd (update_media_row bk st vid u))) = length (tv_media_items st)"
  by (simp add: update_media_row_def split: option.splits)






lemma descriptive_withCounters: "descriptive (withCounters v r) = descriptive r"
  by (simp add: withCounters_def descriptive_def)

text \<open>The batch of updates.\<close>

lemma runUpdates_Nil: "runUpdates bk [] st = st"
  by (simp add: runUpdates_def)

lemma runUpdates_snoc:
  "runUpdates bk (ups @ [(vid, u)]) st = snd (update_media_row bk (runUpdates bk ups st) vid u)"
  by (simp add: runUpdates_def)

lemma runUpdates_other_tables:
  "tv_channels (runUpdates bk ups st) = tv_channels st
   \<and> tv_channel_statistics (runUpdates bk ups st) = tv_channel_statistics st"
proof (induction ups rule: rev_induct)
  case Nil
  show ?case by (simp add: runUpdates_Nil)
next
  case (snoc x ups)
  obtain vid u where x: "x = (vid, u)" by (cases x)
  from snoc show ?case
    by (simp add: x runUpdates_snoc update_media_row_other_tables)
qed

lemma runUpdates_length:
  "length (tv_media_items (runUpdates bk ups st)) = length (tv_media_items st)"
proof (induction ups rule: rev_induct)
  case Nil
  show ?case by (simp add: runUpdates_Nil)
next
  case (snoc x ups)
  obtain vid u where x: "x = (vid, u)" by (cases x)
  from snoc show ?case
    by (simp add: x runUpdates_snoc update_media_row_length)
qed




lemma stored_fun: "(\<lambda>r. r\<lparr>m_created_at := default_created_at bk\<rparr>) = stored bk"
  by (rule ext) (simp add: stored_def)

lemma insert_media_rows_items:
  "tv_media_items (snd (insert_media_rows bk st recs)) = tv_media_items st
   \<or> tv_media_items (snd (insert_media_rows bk st recs))
       = tv_media_items st @ map (stored bk) recs"
  by (cases "insert_media_error bk st recs") (simp_all add: insert_media_rows_def stored_fun)


lemma select_media_ok:
  assumes "select_error bk st VIDEOS_TABLE = None"
  shows "select_media bk st slug
           = Inr (filter (\<lambda>r. m_channel_slug r = Some slug) (tv_media_items st))"
  using assms by (simp add: select_media_def)

lemma select_media_failed:
  assumes "select_error bk st VIDEOS_TABLE = Some msg"
  shows "select_media bk st slug = Inl msg"
  using assms by (simp add: select_media_def)

lemma insertNewMediaItems_failed_select:
  assumes "select_error bk st VIDEOS_TABLE = Some msg"
  shows "insertNewMediaItems bk slug vs st
           = (Inl (Error (''Failed to fetch existing videos: '' @ msg)), st)"
  by (simp add: insertNewMediaItems_def select_media_failed[OF assms])

lemma insertNewMediaItems_selected:
  assumes "select_error bk st VIDEOS_TABLE = None"
  shows "insertNewMediaItems bk slug vs st =
     (let updates = fst (splitVideos slug (existingIdsOf st slug) vs);
          newRecords = snd (splitVideos slug (existingIdsOf st slug) vs);
          st1 = runUpdates bk updates st
      in if newRecords \<noteq> []
         then (case insert_media_rows bk st1 newRecords of
                 (Some msg, st2) \<Rightarrow>
                   (Inl (Error (''Failed to insert new media items: '' @ msg)), st2)
               | (None, st2) \<Rightarrow> (Inr (), st2))
         else (Inr (), st1))"
  by (simp add: insertNewMediaItems_def select_media_ok[OF assms] existingIdsOf_def
        split_beta Let_def)

lemma insertNewMediaItems_items:
  "tv_media_items (snd (insertNewMediaItems bk slug vs st)) = tv_media_items st
   \<or> tv_media_items (snd (insertNewMediaItems bk slug vs st))
       = tv_media_items (runUpdates bk (fst (splitVideos slug (existingIdsOf st slug) vs)) st)
   \<or> tv_media_items (snd (insertNewMediaItems bk slug vs st))
       = tv_media_items (runUpdates bk (fst (splitVideos slug (existingIdsOf st slug) vs)) st)
           @ map (stored bk) (snd (splitVideos slug (existingIdsOf st slug) vs))"
proof (cases "select_error bk st VIDEOS_TABLE")
  case (Some msg)
  then show ?thesis by (simp add: insertNewMediaItems_failed_select)
next
  case None
  let ?new = "snd (splitVideos slug (existingIdsOf st slug) vs)"
  let ?st1 = "runUpdates bk (fst (splitVideos slug (existingIdsOf st slug) vs)) st"
  show ?thesis
  proof (cases "?new = []")
    case True
    with None show ?thesis by (simp add: insertNewMediaItems_selected)
  next
    case False
    obtain e st2 where r: "insert_media_rows bk ?st1 ?new = (e, st2)"
      by (cases "insert_media_rows bk ?st1 ?new")
    then have st2: "st2 = snd (insert_media_rows bk ?st1 ?new)" by simp
    from None False r have "snd (insertNewMediaItems bk slug vs st) = st2"
      by (cases e) (simp_all add: insertNewMediaItems_selected)
    with st2 insert_media_rows_items[of bk ?st1 ?new] show ?thesis by auto
  qed
qed



lemma insertNewMediaItems_added:
  "drop (length (tv_media_items st)) (tv_media_items (snd (insertNewMediaItems bk slug vs st))) = []
   \<or> drop (length (tv_media_items st)) (tv_media_items (snd (insertNewMediaItems bk slug vs st)))
       = map (stored bk) (snd (splitVideos slug (existingIdsOf st slug) vs))"
proof -
  let ?st1 = "runUpdates bk (fst (splitVideos slug (existingIdsOf st slug) vs)) st"
  have l: "length (tv_media_items ?st1) = length (tv_media_items st)"
    by (rule runUpdates_length)
  from insertNewMediaItems_items[of bk slug vs st] l show ?thesis by auto
qed

section \<open>Refused requests\<close>

text \<open>Every refused request but a counter update is thrown with the store's message.\<close>

lemma refused_requests_surface:
  "upsert_channel_error bk st
       \<lparr>ci_slug = cd_slug channel, ci_name = cd_name channel,
        ci_youtube_id = truthy (cd_youtubeId channel)\<rparr> = Some msg
     \<Longrightarrow> upsertChannel bk channel st = (Inl (Error (''Failed to upsert channel: '' @ msg)), st)"
  "select_error bk st VIDEOS_TABLE = Some msg
     \<Longrightarrow> insertNewMediaItems bk slug videos st
           = (Inl (Error (''Failed to fetch existing videos: '' @ msg)), st)"
  "select_error bk st VIDEOS_TABLE = Some msg
     \<Longrightarrow> getChannelMediaItems bk slug st
           = Inl (Error (''Failed to get channel media items: '' @ msg))"
  "select_error bk st CHANNELS_TABLE = Some msg
     \<Longrightarrow> getAllChannels bk st = Inl (Error (''Failed to get all channels: '' @ msg))"
  "select_error bk st VIDEOS_TABLE = Some msg
     \<Longrightarrow> upsertChannelStatistics bk today slug statistics date st
           = (Inl (Error (''Failed to get video stats: '' @ msg)), st)"
  by (simp_all add: upsertChannel_def upsert_channel_row_def insertNewMediaItems_def
        select_media_def getChannelMediaItems_def getAllChannels_def select_channels_def
        upsertChannelStatistics_def)

lemma refused_insert_surfaces:
  assumes "select_error bk st VIDEOS_TABLE = None"
    and "snd (splitVideos slug (existingIdsOf st slug) videos) \<noteq> []"
    and "insert_media_error bk
           (runUpdates bk (fst (splitVideos slug (existingIdsOf st slug) videos)) st)
           (snd (splitVideos slug (existingIdsOf st slug) videos)) = Some msg"
  shows "fst (insertNewMediaItems bk slug videos st)
           = Inl (Error (''Failed to insert new media items: '' @ msg))"
  using assms(2,3)
  by (simp add: insertNewMediaItems_selected[OF assms(1)] insert_media_rows_def Let_def)


lemma runUpdates_refused:
  assumes "\<And>s vid u. update_media_error bk s vid u \<noteq> None"
  shows "runUpdates bk ups st = st"
proof (induction ups rule: rev_induct)
  case Nil
  show ?case by (simp add: runUpdates_Nil)
next
  case (snoc x ups)
  obtain vid u where x: "x = (vid, u)" by (cases x)
  from assms[of st vid u] obtain msg where "update_media_error bk st vid u = Some msg"
    by (cases "update_media_error bk st vid u") auto
  then have "snd (update_media_row bk st vid u) = st"
    by (simp add: update_media_row_def)
  with snoc show ?case by (simp add: x runUpdates_snoc)
qed

lemma refused_updates_pass_silently:
  assumes "select_error bk st VIDEOS_TABLE = None"
    and "\<And>s vid u. update_media_error bk s vid u \<noteq> None"
    and "set (map vd_id videos) \<subseteq> existingIdsOf st slug"
  shows "insertNewMediaItems bk slug videos st = (Inr (), st)"
proof -
  from assms(3) have "filter (\<lambda>v. vd_id v \<notin> existingIdsOf st slug) videos = []"
    by (auto simp: filter_empty_conv)
  then have "snd (splitVideos slug (existingIdsOf st slug) videos) = []"
    by (simp add: splitVideos_new)
  then show ?thesis
    by (simp add: insertNewMediaItems_selected[OF assms(1)] runUpdates_refused[OF assms(2)])
qed

text \<open>
  Claim C2, at a failing input. The batch brings a video already stored for channel
  \<open>A\<close>, and the store refuses its counter update with a timeout message:
  \<open>insertNewMediaItems\<close> returns normally and the store is as before, so the failure
  reaches no caller. A refused bulk insert, in contrast, is thrown with the store's
  message.
\<close>

theorem update_failure_swallowed:
  "vd_id (hd syncBatch) \<in> existingIdsOf syncStore ''A''
   \<and> update_media_row refusingUpdates syncStore (vd_id (hd syncBatch))
         (updateRecord (hd syncBatch))
       = (Some ''canceling statement due to timeout'', syncStore)
   \<and> insertNewMediaItems refusingUpdates ''A'' [hd syncBatch] syncStore = (Inr (), syncStore)
   \<and> fst (insertNewMediaItems refusingInserts ''A'' syncBatch syncStore)
       = Inl (Error ''Failed to insert new media items: canceling statement due to timeout'')"
proof -
  have a: "vd_id (hd syncBatch) \<in> existingIdsOf syncStore ''A''"
    unfolding existingIdsOf_def by code_simp
  have b: "update_media_row refusingUpdates syncStore (vd_id (hd syncBatch))
         (updateRecord (hd syncBatch))
       = (Some ''canceling statement due to timeout'', syncStore)"
    by (simp add: update_media_row_def refusingUpdates_def)
  have c: "insertNewMediaItems refusingUpdates ''A'' [hd syncBatch] syncStore = (Inr (), syncStore)"
  proof -
    have sel: "select_error refusingUpdates syncStore VIDEOS_TABLE = None"
      by (simp add: refusingUpdates_def okBackend_def)
    have sp: "splitVideos ''A'' (existingIdsOf syncStore ''A'') [hd syncBatch]
                = ([(vd_id (hd syncBatch), updateRecord (hd syncBatch))], [])"
      using a by (simp add: Let_def)
    show ?thesis
      using a b by (simp add: insertNewMediaItems_selected[OF sel] runUpdates_def Let_def)
  qed
  have d: "fst (insertNewMediaItems refusingInserts ''A'' syncBatch syncStore)
       = Inl (Error ''Failed to insert new media items: canceling statement due to timeout'')"
    by code_simp
  from a b c d show ?thesis by simp
qed

section \<open>The partition of a batch\<close>



section \<open>Durations\<close>

lemma digit_table:
  "list_all (\<lambda>d. isDigit (digitChar d) \<and> digitVal (digitChar d) = d) [0..<10]"
  by code_simp

lemma digitVal_digitChar: "d < 10 \<Longrightarrow> digitVal (digitChar d) = d"
  using digit_table by (simp add: list_all_iff)

lemma isDigit_digitChar: "d < 10 \<Longrightarrow> isDigit (digitChar d)"
  using digit_table by (simp add: list_all_iff)

lemma decVal_snoc: "decVal (ds @ [c]) = 10 * decVal ds + digitVal c"
  by (simp add: decVal_def)

lemma decVal_showNat: "decVal (showNat n) = n"
proof (induction n rule: showNat.induct)
  case (1 n)
  show ?case
  proof (cases "n < 10")
    case True
    then show ?thesis by (simp add: showNat.simps[of n] decVal_def digitVal_digitChar)
  next
    case False
    with 1 show ?thesis
      by (simp add: showNat.simps[of n] decVal_snoc digitVal_digitChar)
  qed
qed

lemma showNat_digits: "list_all isDigit (showNat n)"
proof (induction n rule: showNat.induct)
  case (1 n)
  show ?case
  proof (cases "n < 10")
    case True
    then show ?thesis by (simp add: showNat.simps[of n] isDigit_digitChar)
  next
    case False
    with 1 show ?thesis
      by (simp add: showNat.simps[of n] isDigit_digitChar)
  qed
qed

lemma showNat_nonempty: "showNat n \<noteq> []"
  by (subst showNat.simps) simp

lemma optGroup_hit:
  assumes "list_all isDigit ds" "ds \<noteq> []" "\<not> isDigit u"
  shows "optGroup u (ds @ u # r) = (Some ds, r)"
proof -
  have t: "takeWhile isDigit (ds @ u # r) = ds"
    using assms by (simp add: takeWhile_append2 list_all_iff)
  have d: "dropWhile isDigit (ds @ u # r) = u # r"
    using assms by (simp add: dropWhile_append2 list_all_iff)
  show ?thesis using assms by (simp add: optGroup_def t d)
qed

lemma optGroup_miss:
  assumes "list_all isDigit ds" "\<not> isDigit v" "v \<noteq> u"
  shows "optGroup u (ds @ v # r) = (None, ds @ v # r)"
proof -
  have d: "dropWhile isDigit (ds @ v # r) = v # r"
    using assms by (simp add: dropWhile_append2 list_all_iff)
  show ?thesis using assms by (simp add: optGroup_def d)
qed

lemma optGroup_Nil: "optGroup u [] = (None, [])"
  by (simp add: optGroup_def)

lemma unit_not_digit:
  "\<not> isDigit CHR ''H''" "\<not> isDigit CHR ''M''" "\<not> isDigit CHR ''S''"
  by (simp_all add: isDigit_def)

lemma groupVal_Some: "groupVal (Some (showNat n)) = n"
  by (simp add: groupVal_def decVal_showNat)

lemma groupVal_None: "groupVal None = 0"
  by (simp add: groupVal_def decVal_def digitVal_def)

lemma findPT_token: "findPT (CHR ''P'' # CHR ''T'' # r) = Some r"
  by simp

lemma parse_token:
  "parseDurationToSeconds (durationToken h m s) = amount h * 3600 + amount m * 60 + amount s"
proof -
  note D = showNat_digits showNat_nonempty unit_not_digit
  show ?thesis
    by (cases h; cases m; cases s)
       (simp_all add: parseDurationToSeconds_def durationToken_def component_def amount_def
          optGroup_hit optGroup_miss optGroup_Nil groupVal_Some groupVal_None D)
qed


lemma twoDigits_pad: "n < 100 \<Longrightarrow> padStart2 (showNat n) = twoDigits n"
proof (cases "n < 10")
  case True
  have z: "digitChar 0 = CHR ''0''" by code_simp
  from True show ?thesis
    by (simp add: showNat.simps[of n] padStart2_def twoDigits_def z)
next
  case False
  assume "n < 100"
  with False have "n div 10 < 10" by simp
  with False show ?thesis
    by (simp add: showNat.simps[of n] showNat.simps[of "n div 10"] padStart2_def twoDigits_def)
qed

lemma formatDuration_shape:
  "formatDuration d =
     (let t = parseDurationToSeconds d
      in if 3600 \<le> t
         then showNat (t div 3600) @ '':'' @ twoDigits (t mod 3600 div 60) @ '':''
                @ twoDigits (t mod 60)
         else showNat (t div 60) @ '':'' @ twoDigits (t mod 60))"
proof -
  define t where "t = parseDurationToSeconds d"
  have m: "t mod 3600 div 60 < 100" 
  proof -
    have "t mod 3600 < 3600" by simp
    then show ?thesis by (simp add: div_less_iff_less_mult)
  qed
  have s: "t mod 60 < 100"
  proof -
    have "t mod 60 < 60" by simp
    then show ?thesis by linarith
  qed
  have h: "(0 < t div 3600) = (3600 \<le> t)" by (simp add: div_greater_zero_iff)
  have e: "t < 3600 \<Longrightarrow> t mod 3600 div 60 = t div 60" by simp
  show ?thesis
    unfolding formatDuration_def Let_def t_def[symmetric]
    using e by (simp add: twoDigits_pad[OF m] twoDigits_pad[OF s] h del: mod_less)
qed

lemma findPT_none: "\<not> str_includes d ''PT'' \<Longrightarrow> findPT d = None"
  by (induction d rule: findPT.induct) auto

lemma unparseable_zero:
  assumes "\<not> str_includes d ''PT''"
  shows "parseDurationToSeconds d = 0" and "formatDuration d = ''0:00''"
proof -
  show p: "parseDurationToSeconds d = 0"
    using assms by (simp add: parseDurationToSeconds_def findPT_none)
  have "showNat 0 = ''0''" by code_simp
  then show "formatDuration d = ''0:00''"
    by (simp add: formatDuration_def p padStart2_def)
qed

text \<open>
  Claim C4. Below \<open>2^53\<close>, where the code's numbers are exact: a token \<open>PT\<close> with
  optional hour, minute and second components parses to the total of its components in
  seconds; the display of a parsed total is \<open>H:MM:SS\<close> from one hour on and \<open>M:SS\<close>
  below, minutes and seconds on two digits after the first part. A string without \<open>PT\<close>
  parses to 0 and displays \<open>0:00\<close>; \<open>PT1H2M3S\<close> gives 3723 and \<open>1:02:03\<close>, \<open>PT5M9S\<close>
  gives 309 and \<open>5:09\<close>, \<open>PT0S\<close> gives 0 and \<open>0:00\<close>.
\<close>

theorem duration_parse_and_display:
  "(amount h < exactLimit \<and> amount m < exactLimit \<and> amount s < exactLimit
      \<and> amount h * 3600 + amount m * 60 + amount s < exactLimit \<longrightarrow>
      parseDurationToSeconds (durationToken h m s)
        = amount h * 3600 + amount m * 60 + amount s)
   \<and> (parseDurationToSeconds d < exactLimit \<longrightarrow>
        formatDuration d =
          (let t = parseDurationToSeconds d
           in if 3600 \<le> t
              then showNat (t div 3600) @ '':'' @ twoDigits (t mod 3600 div 60) @ '':''
                     @ twoDigits (t mod 60)
              else showNat (t div 60) @ '':'' @ twoDigits (t mod 60)))
   \<and> (\<not> str_includes u ''PT'' \<longrightarrow>
        parseDurationToSeconds u = 0 \<and> formatDuration u = ''0:00'')
   \<and> parseDurationToSeconds ''PT1H2M3S'' = 3723 \<and> formatDuration ''PT1H2M3S'' = ''1:02:03''
   \<and> parseDurationToSeconds ''PT5M9S'' = 309 \<and> formatDuration ''PT5M9S'' = ''5:09''
   \<and> parseDurationToSeconds ''PT0S'' = 0 \<and> formatDuration ''PT0S'' = ''0:00''"
proof -
  have a: "parseDurationToSeconds ''PT1H2M3S'' = 3723" by code_simp
  have b: "formatDuration ''PT1H2M3S'' = ''1:02:03''" by code_simp
  have c: "parseDurationToSeconds ''PT5M9S'' = 309" by code_simp
  have d: "formatDuration ''PT5M9S'' = ''5:09''" by code_simp
  have e: "parseDurationToSeconds ''PT0S'' = 0" by code_simp
  have f: "formatDuration ''PT0S'' = ''0:00''" by code_simp
  show ?thesis
    using parse_token[of h m s] formatDuration_shape[of d] unparseable_zero[of u] a b c d e f
    by blast
qed

theorem duration_parse_and_display_witness:
  "amount (Some 1) < exactLimit \<and> amount None < exactLimit \<and> amount (Some 30) < exactLimit
   \<and> amount (Some 1) * 3600 + amount None * 60 + amount (Some 30) < exactLimit
   \<and> parseDurationToSeconds (durationToken (Some 1) None (Some 30)) = 3630
   \<and> parseDurationToSeconds ''PT90M'' < exactLimit
   \<and> formatDuration ''PT90M'' = ''1:30:00''
   \<and> \<not> str_includes ''soon'' ''PT''
   \<and> parseDurationToSeconds ''soon'' = 0 \<and> formatDuration ''soon'' = ''0:00''"
proof -
  have h: "\<not> str_includes ''soon'' ''PT''" by code_simp
  have p: "parseDurationToSeconds ''PT90M'' = 5400" by code_simp
  have shape: "showNat (5400 div 3600) @ '':'' @ twoDigits (5400 mod 3600 div 60) @ '':''
                 @ twoDigits (5400 mod 60) = ''1:30:00''"
    by code_simp
  have bounds: "amount (Some 1) < exactLimit \<and> amount None < exactLimit
      \<and> amount (Some 30) < exactLimit
      \<and> amount (Some 1) * 3600 + amount None * 60 + amount (Some 30) < exactLimit"
    by (simp add: amount_def exactLimit_def)
  have pb: "parseDurationToSeconds ''PT90M'' < exactLimit" by (simp add: p exactLimit_def)
  note T = duration_parse_and_display[of "Some 1" None "Some 30" "''PT90M''" "''soon''"]
  from T bounds have t1: "parseDurationToSeconds (durationToken (Some 1) None (Some 30)) = 3630"
    by (simp add: amount_def)
  from T pb have "formatDuration ''PT90M'' =
          (let t = parseDurationToSeconds ''PT90M''
           in if 3600 \<le> t
              then showNat (t div 3600) @ '':'' @ twoDigits (t mod 3600 div 60) @ '':''
                     @ twoDigits (t mod 60)
              else showNat (t div 60) @ '':'' @ twoDigits (t mod 60))"
    by blast
  then have t2: "formatDuration ''PT90M'' = ''1:30:00''"
    unfolding p Let_def using shape by simp
  from T h have t3: "parseDurationToSeconds ''soon'' = 0 \<and> formatDuration ''soon'' = ''0:00''"
    by blast
  from bounds t1 pb t2 h t3 show ?thesis by simp
qed
section \<open>Listing the uploads of a channel\<close>

lemma room_after_push:
  assumes "\<not> limitReached limitVideos (videos @ [x])"
  shows "room limitVideos (videos @ [x]) \<noteq> Some 0"
    and "upTo (room limitVideos videos) (y # ys) = y # upTo (room limitVideos (videos @ [x])) ys"
proof -
  show "room limitVideos (videos @ [x]) \<noteq> Some 0"
    using assms by (auto simp: limitReached_def room_def split: option.splits)
  show "upTo (room limitVideos videos) (y # ys) = y # upTo (room limitVideos (videos @ [x])) ys"
  proof (cases limitVideos)
    case None
    then show ?thesis by (simp add: room_def upTo_def)
  next
    case (Some l)
    show ?thesis
    proof (cases "l = 0")
      case True
      with Some show ?thesis by (simp add: room_def upTo_def)
    next
      case False
      with assms Some have lt: "length videos + 1 < l" by (simp add: limitReached_def)
      define k where "k = l - Suc (length videos)"
      from lt have "l - length videos = Suc k" by (simp add: k_def)
      with Some False show ?thesis by (simp add: room_def upTo_def k_def)
    qed
  qed
qed

lemma room_at_limit:
  assumes "limitReached limitVideos (videos @ [x])" "room limitVideos videos \<noteq> Some 0"
  shows "upTo (room limitVideos videos) (y # ys) = [y]"
proof -
  from assms obtain l where l: "limitVideos = Some l" "l \<noteq> 0" "l \<le> length videos + 1"
    by (auto simp: limitReached_def split: option.splits)
  with assms(2) have "l - length videos = 1" by (simp add: room_def)
  with l show ?thesis by (simp add: room_def upTo_def)
qed

lemma room_start: "room limitVideos [] \<noteq> Some 0"
  by (simp add: room_def split: option.splits)

lemma upTo_Nil: "upTo n [] = []"
  by (simp add: upTo_def split: option.splits)

lemma keptRecords_Nil: "keptRecords toDate [] = []"
  by (simp add: keptRecords_def)

lemma keptRecords_short:
  "\<not> longEnough v \<Longrightarrow> keptRecords toDate (v # rest) = keptRecords toDate rest"
  by (simp add: keptRecords_def)

lemma keptRecords_undated:
  "longEnough v \<Longrightarrow> toDate (yv_publishedAt v) = None \<Longrightarrow> keptRecords toDate (v # rest) = []"
  by (simp add: keptRecords_def)

lemma keptRecords_dated:
  "longEnough v \<Longrightarrow> toDate (yv_publishedAt v) = Some date
     \<Longrightarrow> keptRecords toDate (v # rest) = v # keptRecords toDate rest"
  by (simp add: keptRecords_def)

lemma keptRecords_long: "\<forall>video\<in>set (keptRecords toDate items). longEnough video"
proof
  fix video
  assume "video \<in> set (keptRecords toDate items)"
  then have "video \<in> set (filter longEnough items)"
    unfolding keptRecords_def by (rule set_takeWhileD[THEN conjunct1])
  then show "longEnough video" by simp
qed

lemma keptRecords_dates:
  "\<forall>video\<in>set (keptRecords toDate items). toDate (yv_publishedAt video) \<noteq> None"
proof
  fix video
  assume "video \<in> set (keptRecords toDate items)"
  then show "toDate (yv_publishedAt video) \<noteq> None"
    unfolding keptRecords_def by (rule set_takeWhileD[THEN conjunct2])
qed

lemma keptRecords_all:
  assumes "\<forall>video\<in>set items. longEnough video \<longrightarrow> toDate (yv_publishedAt video) \<noteq> None"
  shows "keptRecords toDate items = filter longEnough items"
  unfolding keptRecords_def using assms by (simp add: takeWhile_eq_all_conv)

text \<open>The videos the loop over one page ends with, whatever way it ends.\<close>

lemma processItems_videos:
  assumes "room limitVideos videos \<noteq> Some 0"
  shows "videosOf (processItems toDate limitVideos items videos)
           = videos @ map (madeFrom toDate) (upTo (room limitVideos videos)
                                               (keptRecords toDate items))"
  using assms
proof (induction items arbitrary: videos)
  case Nil
  show ?case by (simp add: keptRecords_Nil upTo_Nil)
next
  case (Cons v rest)
  show ?case
  proof (cases "longEnough v")
    case False
    then have "processItems toDate limitVideos (v # rest) videos
                 = processItems toDate limitVideos rest videos"
      by (simp add: longEnough_def)
    with Cons.IH[OF Cons.prems] False show ?thesis by (simp add: keptRecords_short)
  next
    case True
    show ?thesis
    proof (cases "toDate (yv_publishedAt v)")
      case None
      with True have "processItems toDate limitVideos (v # rest) videos = Threw videos"
        by (simp add: longEnough_def)
      with True None show ?thesis by (simp add: keptRecords_undated upTo_Nil)
    next
      case (Some date)
      let ?x = "toVideoData date v"
      have mk: "madeFrom toDate v = ?x" by (simp add: madeFrom_def Some)
      have kept: "keptRecords toDate (v # rest) = v # keptRecords toDate rest"
        using True Some by (simp add: keptRecords_dated)
      show ?thesis
      proof (cases "limitReached limitVideos (videos @ [?x])")
        case reached: True
        with True Some
        have "processItems toDate limitVideos (v # rest) videos = Returned (videos @ [?x])"
          by (simp add: longEnough_def)
        moreover have "upTo (room limitVideos videos) (v # keptRecords toDate rest) = [v]"
          by (rule room_at_limit[OF reached Cons.prems])
        ultimately show ?thesis by (simp add: kept mk)
      next
        case notyet: False
        with True Some
        have "processItems toDate limitVideos (v # rest) videos
                = processItems toDate limitVideos rest (videos @ [?x])"
          by (simp add: longEnough_def)
        moreover note Cons.IH[OF room_after_push(1)[OF notyet]]
        moreover note room_after_push(2)[OF notyet, of v "keptRecords toDate rest"]
        ultimately show ?thesis by (simp add: kept mk)
      qed
    qed
  qed
qed

text \<open>A page after a page: the loop goes on only from a page that ran to its end.\<close>

lemma processItems_append:
  "processItems toDate limitVideos (xs @ ys) videos =
     (case processItems toDate limitVideos xs videos of
        Completed vs \<Rightarrow> processItems toDate limitVideos ys vs
      | Returned vs \<Rightarrow> Returned vs
      | Threw vs \<Rightarrow> Threw vs)"
proof (induction xs arbitrary: videos)
  case Nil
  show ?case by simp
next
  case (Cons v rest)
  show ?case
  proof (cases "parseDurationToSeconds (yv_duration v) < 120")
    case True
    with Cons.IH[of videos] show ?thesis by simp
  next
    case False
    show ?thesis
    proof (cases "toDate (yv_publishedAt v)")
      case None
      with False show ?thesis by simp
    next
      case (Some date)
      show ?thesis
      proof (cases "limitReached limitVideos (videos @ [toVideoData date v])")
        case True
        with False Some show ?thesis by simp
      next
        case notyet: False
        with False Some Cons.IH[of "videos @ [toVideoData date v]"] show ?thesis by simp
      qed
    qed
  qed
qed

text \<open>The listing over the pages a remote serves is the loop over all their records.\<close>

lemma listUploads_pages:
  assumes "servesPages rm uploadsPlaylistId pageToken pages"
  shows "listUploads rm limitVideos uploadsPlaylistId pageToken videos
           = Some (videosOf (processItems (toISODate rm) limitVideos (concat pages) videos))"
  using assms
proof (induction pages arbitrary: pageToken videos)
  case Nil
  then have stop: "stopsListing rm uploadsPlaylistId pageToken" by simp
  have "listUploads rm limitVideos uploadsPlaylistId pageToken videos = Some videos"
  proof (cases "playlistItems rm uploadsPlaylistId pageToken")
    case PlaylistFailed
    then show ?thesis by (subst listUploads.simps) simp
  next
    case (PlaylistPage items "next")
    show ?thesis
    proof (cases items)
      case None
      with PlaylistPage show ?thesis by (subst listUploads.simps) simp
    next
      case (Some its)
      with PlaylistPage stop
      have "List.map_filter truthy its = []
            \<or> videoDetails rm (List.map_filter truthy its) = DetailsFailed"
        by (simp add: stopsListing_def)
      with PlaylistPage Some show ?thesis
        by (subst listUploads.simps) (auto simp: Let_def)
    qed
  qed
  then show ?case by simp
next
  case (Cons ds rest)
  note serves = Cons.prems
  obtain its "next" where page: "playlistItems rm uploadsPlaylistId pageToken
                                   = PlaylistPage (Some its) next"
  proof (cases "playlistItems rm uploadsPlaylistId pageToken")
    case PlaylistFailed
    with serves show ?thesis by simp
  next
    case (PlaylistPage items n)
    show ?thesis
    proof (cases items)
      case None
      with PlaylistPage serves show ?thesis by simp
    next
      case (Some its)
      with PlaylistPage that show ?thesis by blast
    qed
  qed
  from serves page have ids: "List.map_filter truthy its \<noteq> []" by simp
  obtain detailItems where det: "videoDetails rm (List.map_filter truthy its) = Details detailItems"
    and ds: "ds = (case detailItems of None \<Rightarrow> [] | Some d \<Rightarrow> d)"
  proof (cases "videoDetails rm (List.map_filter truthy its)")
    case DetailsFailed
    with serves page show ?thesis by simp
  next
    case (Details detailItems)
    with serves page that show ?thesis by simp
  qed
  from serves page have after: "(case truthy next of
                None \<Rightarrow> rest = []
              | Some token \<Rightarrow> servesPages rm uploadsPlaylistId (Some token) rest)"
    by simp
  let ?r = "processItems (toISODate rm) limitVideos ds videos"
  have step: "listUploads rm limitVideos uploadsPlaylistId pageToken videos =
      (case ?r of
         Completed vs \<Rightarrow>
           (case truthy next of
              None \<Rightarrow> Some vs
            | Some token \<Rightarrow> listUploads rm limitVideos uploadsPlaylistId (Some token) vs)
       | Returned vs \<Rightarrow> Some vs
       | Threw vs \<Rightarrow> Some vs)"
    by (subst listUploads.simps) (simp add: page ids det ds[symmetric] Let_def)
  have app: "processItems (toISODate rm) limitVideos (concat (ds # rest)) videos =
      (case ?r of
         Completed vs \<Rightarrow> processItems (toISODate rm) limitVideos (concat rest) vs
       | Returned vs \<Rightarrow> Returned vs
       | Threw vs \<Rightarrow> Threw vs)"
    using processItems_append[of "toISODate rm" limitVideos ds "concat rest" videos] by simp
  show ?case
  proof (cases ?r)
    case (Completed vs)
    show ?thesis
    proof (cases "truthy next")
      case None
      with after have "rest = []" by simp
      with Completed None step app show ?thesis by simp
    next
      case (Some token)
      with after have "servesPages rm uploadsPlaylistId (Some token) rest" by simp
      from Cons.IH[OF this, of vs] Completed Some step app show ?thesis by simp
    qed
  next
    case (Returned vs)
    with step app show ?thesis by simp
  next
    case (Threw vs)
    with step app show ?thesis by simp
  qed
qed

lemma getVideosFromChannel_pages:
  assumes "truthy (uploadsPlaylist rm channelId) = Some uploadsPlaylistId"
    and "servesPages rm uploadsPlaylistId None pages"
  shows "getVideosFromChannel rm channelId limitVideos
           = Some (map (madeFrom (toISODate rm)) (listedRecords rm limitVideos pages))"
  using listUploads_pages[OF assms(2), of limitVideos "[]"]
    processItems_videos[OF room_start, of "toISODate rm" limitVideos "concat pages"]
  by (simp add: getVideosFromChannel_def assms(1) listedRecords_def)

lemma listedRecords_long: "\<forall>video\<in>set (listedRecords rm limitVideos pages). longEnough video"
proof
  fix video
  assume "video \<in> set (listedRecords rm limitVideos pages)"
  then have "video \<in> set (keptRecords (toISODate rm) (concat pages))"
    by (auto simp: listedRecords_def upTo_def split: option.splits dest: in_set_takeD)
  with keptRecords_long show "longEnough video" by blast
qed

lemma listedRecords_dated:
  "\<forall>video\<in>set (listedRecords rm limitVideos pages).
     toISODate rm (yv_publishedAt video) \<noteq> None"
proof
  fix video
  assume "video \<in> set (listedRecords rm limitVideos pages)"
  then have "video \<in> set (keptRecords (toISODate rm) (concat pages))"
    by (auto simp: listedRecords_def upTo_def split: option.splits dest: in_set_takeD)
  with keptRecords_dates show "toISODate rm (yv_publishedAt video) \<noteq> None" by blast
qed

lemma madeFrom_columns:
  "vd_id (madeFrom toDate video) = yv_id video"
  "vd_title (madeFrom toDate video) = yv_title video"
  "vd_description (madeFrom toDate video) = Some (yv_description video)"
  "vd_duration (madeFrom toDate video) = Some (formatDuration (yv_duration video))"
  "toDate (yv_publishedAt video) \<noteq> None
     \<Longrightarrow> toDate (yv_publishedAt video) = Some (vd_date (madeFrom toDate video))"
  by (auto simp: madeFrom_def toVideoData_def)

lemma processItems_sound:
  "\<forall>x\<in>set (videosOf (processItems toDate limitVideos items videos)).
     x \<in> set videos
     \<or> (\<exists>video\<in>set items. \<exists>date.
           longEnough video \<and> toDate (yv_publishedAt video) = Some date
           \<and> x = toVideoData date video)"
proof (induction items arbitrary: videos)
  case Nil
  show ?case by simp
next
  case (Cons v rest)
  show ?case
  proof (cases "longEnough v")
    case False
    then have "processItems toDate limitVideos (v # rest) videos
                 = processItems toDate limitVideos rest videos"
      by (simp add: longEnough_def)
    with Cons.IH[of videos] show ?thesis by auto
  next
    case True
    show ?thesis
    proof (cases "toDate (yv_publishedAt v)")
      case None
      with True have "processItems toDate limitVideos (v # rest) videos = Threw videos"
        by (simp add: longEnough_def)
      then show ?thesis by simp
    next
      case (Some date)
      let ?videos' = "videos @ [toVideoData date v]"
      show ?thesis
      proof (cases "limitReached limitVideos ?videos'")
        case reached: True
        with True Some
        have "processItems toDate limitVideos (v # rest) videos = Returned ?videos'"
          by (simp add: longEnough_def)
        with True Some show ?thesis by auto
      next
        case notyet: False
        with True Some
        have "processItems toDate limitVideos (v # rest) videos
                = processItems toDate limitVideos rest ?videos'"
          by (simp add: longEnough_def)
        with Cons.IH[of ?videos'] True Some show ?thesis by auto
      qed
    qed
  qed
qed

lemma listUploads_sound:
  assumes "listUploads rm limitVideos uploadsPlaylistId nextPageToken videos = Some vs"
  shows "(\<forall>x\<in>set videos. fromLongRecord rm x) \<longrightarrow> (\<forall>x\<in>set vs. fromLongRecord rm x)"
  using assms
proof (induction rm limitVideos uploadsPlaylistId nextPageToken videos vs
       rule: listUploads.raw_induct[rotated 1, consumes 1, case_names step])
  case (step listUploads rm limitVideos uploadsPlaylistId nextPageToken videos vs)
  note IH = step.IH and body = step.hyps
  show ?case
  proof
  assume start: "\<forall>x\<in>set videos. fromLongRecord rm x"
  show "\<forall>x\<in>set vs. fromLongRecord rm x"
  proof (cases "playlistItems rm uploadsPlaylistId nextPageToken")
    case PlaylistFailed
    with body start show ?thesis by simp
  next
    case (PlaylistPage items "next")
    show ?thesis
    proof (cases items)
      case None
      with PlaylistPage body start show ?thesis by simp
    next
      case (Some its)
      show ?thesis
      proof (cases "List.map_filter truthy its = []")
        case True
        with PlaylistPage Some body start show ?thesis by simp
      next
        case False
        show ?thesis
        proof (cases "videoDetails rm (List.map_filter truthy its)")
          case DetailsFailed
          with PlaylistPage Some False body start show ?thesis by simp
        next
          case (Details detailItems)
          let ?ds = "case detailItems of None \<Rightarrow> [] | Some ds \<Rightarrow> ds"
          let ?r = "processItems (toISODate rm) limitVideos ?ds videos"
          have page: "\<forall>x\<in>set (videosOf ?r). fromLongRecord rm x"
          proof
            fix x
            assume "x \<in> set (videosOf ?r)"
            with processItems_sound[of "toISODate rm" limitVideos ?ds videos]
            consider "x \<in> set videos"
              | video date where "video \<in> set ?ds" "longEnough video"
                  "toISODate rm (yv_publishedAt video) = Some date" "x = toVideoData date video"
              by blast
            then show "fromLongRecord rm x"
            proof cases
              case 1
              with start show ?thesis by simp
            next
              case 2
              from 2(1) obtain ds where "detailItems = Some ds" "video \<in> set ds"
                by (cases detailItems) auto
              with Details 2 show ?thesis
                unfolding fromLongRecord_def by blast
            qed
          qed
          from PlaylistPage Some False Details body
          have b: "(case ?r of
                      Completed vs' \<Rightarrow>
                        (case truthy next of
                           None \<Rightarrow> Some vs'
                         | Some token \<Rightarrow>
                             listUploads rm limitVideos uploadsPlaylistId (Some token) vs')
                    | Returned vs' \<Rightarrow> Some vs'
                    | Threw vs' \<Rightarrow> Some vs') = Some vs"
            by (simp add: Let_def)
          show ?thesis
          proof (cases ?r)
            case (Completed vs')
            with page have p': "\<forall>x\<in>set vs'. fromLongRecord rm x" by simp
            show ?thesis
            proof (cases "truthy next")
              case None
              with b Completed p' show ?thesis by simp
            next
              case (Some token)
              with b Completed
              have "listUploads rm limitVideos uploadsPlaylistId (Some token) vs' = Some vs"
                by simp
              from IH[OF this] p' show ?thesis by blast
            qed
          next
            case (Returned vs')
            with b page show ?thesis by simp
          next
            case (Threw vs')
            with b page show ?thesis by simp
          qed
        qed
      qed
    qed
  qed
  qed
qed

lemma getVideosFromChannel_sound:
  assumes "getVideosFromChannel rm channelId limitVideos = Some vs"
  shows "\<forall>x\<in>set vs. fromLongRecord rm x"
proof (cases "truthy (uploadsPlaylist rm channelId)")
  case None
  with assms show ?thesis by (simp add: getVideosFromChannel_def)
next
  case (Some uploadsPlaylistId)
  with assms have "listUploads rm limitVideos uploadsPlaylistId None [] = Some vs"
    by (simp add: getVideosFromChannel_def)
  from listUploads_sound[OF this] show ?thesis by simp
qed

lemma paged_facts:
  "truthy (uploadsPlaylist pagedRemote ''UCa'') = Some ''UUa''"
  "servesPages pagedRemote ''UUa'' None pagedPages"
  "listedRecords pagedRemote None pagedPages = [episode120, episode300]"
  "listedRecords pagedRemote (Some 1) pagedPages = [episode120]"
  "madeFrom (toISODate pagedRemote) episode120 = listedEpisode120"
  "madeFrom (toISODate pagedRemote) episode300 = listedEpisode300"
  by code_simp+

lemma undated_facts:
  "truthy (uploadsPlaylist undatedRemote ''UCa'') = Some ''UUa''"
  "servesPages undatedRemote ''UUa'' None undatedPages"
  "listedRecords undatedRemote None undatedPages = []"
  by code_simp+

lemma sample_durations:
  "parseDurationToSeconds (yv_duration clip119) = 119"
  "parseDurationToSeconds (yv_duration episode120) = 120"
  "parseDurationToSeconds (yv_duration episode300) = 300"
  "parseDurationToSeconds (yv_duration undatedEpisode) = 180"
  by code_simp+

lemma sample_statistics:
  "statOf (yv_statistics episode120) viewCount = Some 42"
  "statOf (yv_statistics episode120) likeCount = Some 0"
  "statOf (yv_statistics episode120) commentCount = Some 7"
  "statOf (yv_statistics episode300) viewCount = Some 0"
  "statOf (yv_statistics episode300) likeCount = Some 0"
  "statOf (yv_statistics episode300) commentCount = Some 0"
  by code_simp+

text \<open>
  Claim C5, amended. For a remote that serves finitely many pages, the listing returns,
  in page order, the videos made from the records whose parsed duration is at least 120
  seconds, up to the first such record whose publish time is no date (the conversion
  throws and the listing ends there) and cut at the limit when one is set; a record
  under 120 seconds is never returned, and each returned video carries the id, the
  title, the date and the displayed duration of its record. With no limit and every
  record of 120 seconds or more dated, exactly those records are returned. Whatever
  the remote does, a video that the listing returns comes from a record of at least
  120 seconds. The numbers of the listed records are taken below \<open>2^53\<close>.
\<close>

theorem short_videos_dropped:
  "(truthy (uploadsPlaylist rm channelId) = Some uploadsPlaylistId
      \<and> servesPages rm uploadsPlaylistId None pages
      \<and> (\<forall>video\<in>set (listedRecords rm limitVideos pages). exactRecord video)
    \<longrightarrow> getVideosFromChannel rm channelId limitVideos
          = Some (map (madeFrom (toISODate rm)) (listedRecords rm limitVideos pages))
        \<and> (room limitVideos [] = None
             \<and> (\<forall>video\<in>set (concat pages).
                    longEnough video \<longrightarrow> toISODate rm (yv_publishedAt video) \<noteq> None)
            \<longrightarrow> listedRecords rm limitVideos pages = filter longEnough (concat pages)))
   \<and> (\<forall>video\<in>set (listedRecords rm limitVideos pages).
         120 \<le> parseDurationToSeconds (yv_duration video)
         \<and> vd_id (madeFrom (toISODate rm) video) = yv_id video
         \<and> vd_title (madeFrom (toISODate rm) video) = yv_title video
         \<and> vd_duration (madeFrom (toISODate rm) video)
             = Some (formatDuration (yv_duration video))
         \<and> toISODate rm (yv_publishedAt video)
             = Some (vd_date (madeFrom (toISODate rm) video)))
   \<and> (getVideosFromChannel rm channelId limit = Some vs \<longrightarrow>
        (\<forall>x\<in>set vs. fromLongRecord rm x))"
proof -
  have a: "getVideosFromChannel rm channelId limitVideos
             = Some (map (madeFrom (toISODate rm)) (listedRecords rm limitVideos pages))"
    if "truthy (uploadsPlaylist rm channelId) = Some uploadsPlaylistId"
      and "servesPages rm uploadsPlaylistId None pages"
    using that by (rule getVideosFromChannel_pages)
  have b: "listedRecords rm limitVideos pages = filter longEnough (concat pages)"
    if "room limitVideos [] = None"
      and "\<forall>video\<in>set (concat pages).
             longEnough video \<longrightarrow> toISODate rm (yv_publishedAt video) \<noteq> None"
    using that by (simp add: listedRecords_def upTo_def keptRecords_all)
  have c: "\<forall>video\<in>set (listedRecords rm limitVideos pages).
         120 \<le> parseDurationToSeconds (yv_duration video)
         \<and> vd_id (madeFrom (toISODate rm) video) = yv_id video
         \<and> vd_title (madeFrom (toISODate rm) video) = yv_title video
         \<and> vd_duration (madeFrom (toISODate rm) video)
             = Some (formatDuration (yv_duration video))
         \<and> toISODate rm (yv_publishedAt video)
             = Some (vd_date (madeFrom (toISODate rm) video))"
  proof
    fix video
    assume v: "video \<in> set (listedRecords rm limitVideos pages)"
    with listedRecords_long have "longEnough video" by blast
    then have l: "120 \<le> parseDurationToSeconds (yv_duration video)"
      by (simp add: longEnough_def)
    from v listedRecords_dated have "toISODate rm (yv_publishedAt video) \<noteq> None" by blast
    with l
    show "120 \<le> parseDurationToSeconds (yv_duration video)
         \<and> vd_id (madeFrom (toISODate rm) video) = yv_id video
         \<and> vd_title (madeFrom (toISODate rm) video) = yv_title video
         \<and> vd_duration (madeFrom (toISODate rm) video)
             = Some (formatDuration (yv_duration video))
         \<and> toISODate rm (yv_publishedAt video)
             = Some (vd_date (madeFrom (toISODate rm) video))"
      by (simp add: madeFrom_columns)
  qed
  have d: "\<forall>x\<in>set vs. fromLongRecord rm x"
    if "getVideosFromChannel rm channelId limit = Some vs"
    using that by (rule getVideosFromChannel_sound)
  from a b c d show ?thesis by blast
qed

theorem short_videos_dropped_witness:
  "truthy (uploadsPlaylist pagedRemote ''UCa'') = Some ''UUa''
   \<and> servesPages pagedRemote ''UUa'' None pagedPages
   \<and> listedRecords pagedRemote None pagedPages = [episode120, episode300]
   \<and> exactRecord episode120 \<and> exactRecord episode300
   \<and> parseDurationToSeconds (yv_duration clip119) = 119
   \<and> parseDurationToSeconds (yv_duration episode120) = 120
   \<and> getVideosFromChannel pagedRemote ''UCa'' None
       = Some [listedEpisode120, listedEpisode300]
   \<and> fromLongRecord pagedRemote listedEpisode120"
proof -
  have e1: "exactRecord episode120" and e2: "exactRecord episode300"
    by (simp_all add: exactRecord_def exactNumber_def exactLimit_def sample_durations
          sample_statistics)
  then have ex: "\<forall>video\<in>set (listedRecords pagedRemote None pagedPages). exactRecord video"
    by (simp add: paged_facts(3))
  note T = short_videos_dropped[where rm = pagedRemote and channelId = "''UCa''"
      and uploadsPlaylistId = "''UUa''" and pages = pagedPages and limitVideos = None
      and limit = None and vs = "[listedEpisode120, listedEpisode300]"]
  from T paged_facts(1,2) ex
  have "getVideosFromChannel pagedRemote ''UCa'' None
          = Some (map (madeFrom (toISODate pagedRemote))
                    (listedRecords pagedRemote None pagedPages))"
    by blast
  then have g: "getVideosFromChannel pagedRemote ''UCa'' None
                  = Some [listedEpisode120, listedEpisode300]"
    by (simp add: paged_facts(3,5,6))
  from T g have "\<forall>x\<in>set [listedEpisode120, listedEpisode300]. fromLongRecord pagedRemote x"
    by blast
  then have f: "fromLongRecord pagedRemote listedEpisode120" by simp
  from paged_facts(1,2,3) e1 e2 sample_durations(1,2) g f show ?thesis by simp
qed

text \<open>
  Two records of at least 120 seconds that the listing does not return: the undated one
  ends the listing when its date is converted, so neither it nor the upload of exactly
  2 minutes behind it is returned, and with a limit of 1 the upload of five minutes on the second
  page is never fetched.
\<close>

theorem long_video_not_listed_counterexample:
  "120 \<le> parseDurationToSeconds (yv_duration undatedEpisode)
   \<and> toISODate undatedRemote (yv_publishedAt undatedEpisode) = None
   \<and> getVideosFromChannel undatedRemote ''UCa'' None = Some []
   \<and> 120 \<le> parseDurationToSeconds (yv_duration episode300)
   \<and> getVideosFromChannel pagedRemote ''UCa'' (Some 1) = Some [listedEpisode120]
   \<and> yv_id episode300 \<notin> set (map vd_id [listedEpisode120])"
proof -
  have u: "toISODate undatedRemote (yv_publishedAt undatedEpisode) = None" by code_simp
  have "getVideosFromChannel undatedRemote ''UCa'' None
          = Some (map (madeFrom (toISODate undatedRemote))
                    (listedRecords undatedRemote None undatedPages))"
    using undated_facts(1,2) by (rule getVideosFromChannel_pages)
  then have a: "getVideosFromChannel undatedRemote ''UCa'' None = Some []"
    by (simp only: undated_facts(3) list.map)
  have "getVideosFromChannel pagedRemote ''UCa'' (Some 1)
          = Some (map (madeFrom (toISODate pagedRemote))
                    (listedRecords pagedRemote (Some 1) pagedPages))"
    using paged_facts(1,2) by (rule getVideosFromChannel_pages)
  then have b: "getVideosFromChannel pagedRemote ''UCa'' (Some 1) = Some [listedEpisode120]"
    by (simp only: paged_facts(4,5) list.map)
  have c: "yv_id episode300 \<notin> set (map vd_id [listedEpisode120])" by code_simp
  from u a b c show ?thesis by (simp add: sample_durations)
qed


section \<open>Delimited-text escaping\<close>

lemma endsField_not_quote: "endsField c \<Longrightarrow> c \<noteq> dquote"
  by (auto simp: endsField_def comma_def newline_def carriageReturn_def dquote_def)

lemma readQuoted_doubled:
  assumes "atFieldEnd rest"
  shows "readQuoted (doubleQuotes s @ dquote # rest) = Some (s, rest)"
proof (induction s)
  case Nil
  show ?case
  proof (cases rest)
    case Nil
    then show ?thesis by (simp add: doubleQuotes_def)
  next
    case (Cons d r)
    with assms have "d \<noteq> dquote"
      by (simp add: atFieldEnd_def endsField_not_quote)
    with Cons show ?thesis by (simp add: doubleQuotes_def)
  qed
next
  case (Cons c s)
  have split: "doubleQuotes (c # s) = (if c = dquote then [dquote, dquote] else [c]) @ doubleQuotes s"
    by (simp add: doubleQuotes_def)
  show ?case
  proof (cases "c = dquote")
    case True
    with Cons split show ?thesis by simp
  next
    case False
    obtain d cs where t: "doubleQuotes s @ dquote # rest = d # cs"
      by (cases "doubleQuotes s @ dquote # rest") auto
    from False have "readQuoted (c # d # cs) =
        (case readQuoted (d # cs) of None \<Rightarrow> None | Some (f, r) \<Rightarrow> Some (c # f, r))"
      by simp
    with Cons t split False show ?thesis by simp
  qed
qed

lemma takeWhile_stop: "\<forall>x\<in>set s. P x \<Longrightarrow> \<not> P d \<Longrightarrow> takeWhile P (s @ d # r) = s"
  by (induction s) auto

lemma dropWhile_stop: "\<forall>x\<in>set s. P x \<Longrightarrow> \<not> P d \<Longrightarrow> dropWhile P (s @ d # r) = d # r"
  by (induction s) auto

lemma readField_bare:
  assumes "atFieldEnd rest" "comma \<notin> set s" "dquote \<notin> set s" "newline \<notin> set s"
    and "carriageReturn \<notin> set s"
  shows "readField (s @ rest) = Some (s, rest)"
proof -
  let ?p = "\<lambda>x. \<not> endsField x"
  have all: "\<forall>x\<in>set s. ?p x" using assms by (auto simp: endsField_def)
  have tk: "takeWhile ?p (s @ rest) = s \<and> dropWhile ?p (s @ rest) = rest"
  proof (cases rest)
    case Nil
    with all show ?thesis by simp
  next
    case (Cons d r)
    with assms have "\<not> ?p d" by (simp add: atFieldEnd_def)
    with all Cons show ?thesis
      using takeWhile_stop[of s ?p d r] dropWhile_stop[of s ?p d r] by simp
  qed
  show ?thesis
  proof (cases "s @ rest")
    case Nil
    then show ?thesis by (simp add: readField_def)
  next
    case (Cons c cs)
    have "c \<noteq> dquote"
    proof (cases s)
      case Nil
      with Cons assms show ?thesis
        by (simp add: atFieldEnd_def endsField_not_quote)
    next
      case (Cons a as)
      with \<open>s @ rest = c # cs\<close> assms show ?thesis by auto
    qed
    moreover have "readField (c # cs) =
        (if c = dquote
          then (case readQuoted cs of
                  None \<Rightarrow> None
                | Some (f, r) \<Rightarrow> if atFieldEnd r then Some (f, r) else None)
          else (let f = takeWhile ?p (c # cs); r = dropWhile ?p (c # cs)
                in if dquote \<in> set f then None else Some (f, r)))"
      unfolding readField_def by simp
    ultimately show ?thesis
      using tk assms unfolding Cons[symmetric] by (simp add: Let_def)
  qed
qed

lemma readField_quoted:
  assumes "atFieldEnd rest"
  shows "readField ([dquote] @ doubleQuotes s @ [dquote] @ rest) = Some (s, rest)"
  using assms readQuoted_doubled[OF assms, of s] by (simp add: readField_def)

lemma escapeCSV_string:
  "escapeCSV (JStr s) =
     (if comma \<in> set s \<or> dquote \<in> set s \<or> newline \<in> set s
      then [dquote] @ doubleQuotes s @ [dquote] else s)"
  by (simp add: escapeCSV_def toStr_def Let_def)

lemma escapeCSV_roundtrip:
  assumes "atFieldEnd rest"
    and "carriageReturn \<notin> set s \<or> comma \<in> set s \<or> dquote \<in> set s \<or> newline \<in> set s"
  shows "readField (escapeCSV (JStr s) @ rest) = Some (s, rest)"
proof (cases "comma \<in> set s \<or> dquote \<in> set s \<or> newline \<in> set s")
  case True
  with readField_quoted[OF assms(1), of s] show ?thesis by (simp add: escapeCSV_string)
next
  case False
  with assms(2) have "carriageReturn \<notin> set s" by blast
  with False readField_bare[OF assms(1), of s] show ?thesis by (simp add: escapeCSV_string)
qed

lemma quoted_iff:
  "prefix [dquote] (escapeCSV (JStr s)) = (comma \<in> set s \<or> dquote \<in> set s \<or> newline \<in> set s)"
  by (cases s) (auto simp: escapeCSV_string)

text \<open>
  Claim C6, amended. \<open>escapeCSV\<close> wraps a string in quotes, every quote inside doubled,
  exactly when the string holds a comma, a quote or a newline, and writes it unchanged
  otherwise; the field \<open>He said "hi", ok\<close> is written \<open>"He said ""hi"", ok"\<close>; and a
  conforming reader gets the string back from what \<open>escapeCSV\<close> wrote, alone or followed
  by the rest of a row, for every string that holds no carriage return or is written in
  quotes.
\<close>

theorem escapeCSV_quoting_roundtrip:
  "escapeCSV (JStr s) =
     (if comma \<in> set s \<or> dquote \<in> set s \<or> newline \<in> set s
      then [dquote] @ doubleQuotes s @ [dquote] else s)
   \<and> prefix [dquote] (escapeCSV (JStr s))
       = (comma \<in> set s \<or> dquote \<in> set s \<or> newline \<in> set s)
   \<and> escapeCSV (JStr sampleField) = sampleSerialized
   \<and> (atFieldEnd rest
        \<and> (carriageReturn \<notin> set s \<or> comma \<in> set s \<or> dquote \<in> set s \<or> newline \<in> set s)
        \<longrightarrow> readField (escapeCSV (JStr s) @ rest) = Some (s, rest))"
proof -
  have ex: "escapeCSV (JStr sampleField) = sampleSerialized" by code_simp
  show ?thesis
    using escapeCSV_string[of s] quoted_iff[of s] ex escapeCSV_roundtrip[of rest s]
    by blast
qed

theorem escapeCSV_quoting_roundtrip_witness:
  "atFieldEnd '',next''
   \<and> carriageReturn \<notin> set sampleField
   \<and> readField (sampleSerialized @ '',next'') = Some (sampleField, '',next'')
   \<and> atFieldEnd []
   \<and> comma \<in> set crCommaField
   \<and> readField (escapeCSV (JStr crCommaField)) = Some (crCommaField, [])"
proof -
  have h: "atFieldEnd '',next''" and e: "atFieldEnd []" by code_simp+
  have n: "carriageReturn \<notin> set sampleField" by code_simp
  have c: "comma \<in> set crCommaField" by code_simp
  have ex: "escapeCSV (JStr sampleField) = sampleSerialized" by code_simp
  from escapeCSV_quoting_roundtrip[of sampleField "'',next''"] h n
  have a: "readField (escapeCSV (JStr sampleField) @ '',next'') = Some (sampleField, '',next'')"
    by blast
  from escapeCSV_quoting_roundtrip[of crCommaField "[]"] e c
  have "readField (escapeCSV (JStr crCommaField) @ []) = Some (crCommaField, [])"
    by blast
  then have b: "readField (escapeCSV (JStr crCommaField)) = Some (crCommaField, [])"
    by (simp only: append_Nil2)
  from a have a': "readField (sampleSerialized @ '',next'') = Some (sampleField, '',next'')"
    by (simp only: ex)
  from h n a' e c b show ?thesis by (simp only: simp_thms)
qed

text \<open>
  The string \<open>a\<close>, carriage return, \<open>b\<close> holds no comma, quote or newline and is
  written as it is; the reader ends the field at the carriage return and returns \<open>a\<close>.
\<close>

theorem escapeCSV_carriage_return_counterexample:
  "escapeCSV (JStr crField) = crField
   \<and> readField (escapeCSV (JStr crField)) = Some (''a'', carriageReturn # ''b'')
   \<and> readField (escapeCSV (JStr crField)) \<noteq> Some (crField, [])"
  by code_simp

section \<open>The statistics snapshot\<close>








section \<open>The channel upsert\<close>













section \<open>The visibility counts of the summary\<close>

lemma filter_split_length: "length (filter P xs) + length (filter (\<lambda>x. \<not> P x) xs) = length xs"
  by (induction xs) auto

lemma filter_mono_length: "(\<And>x. Q x \<Longrightarrow> P x) \<Longrightarrow> length (filter Q xs) \<le> length (filter P xs)"
  by (induction xs) auto

lemma summary_fields:
  assumes "generateSummaryReport bk now st = Inr s"
  shows "total_channels s = int (length (tv_channels st))"
    and "visible s = int (length (filter (\<lambda>c. c_visible c = Some True) (tv_channels st)))"
    and "hidden s = int (length (filter (\<lambda>c. c_visible c \<noteq> Some True) (tv_channels st)))"
    and "null_visibility s = int (length (filter (\<lambda>c. c_visible c = None) (tv_channels st)))"
proof -
  have g: "getAllChannels bk st = Inr (tv_channels st)"
  proof (cases "select_error bk st CHANNELS_TABLE")
    case None
    then show ?thesis by (simp add: getAllChannels_def select_channels_def)
  next
    case (Some msg)
    then have "generateSummaryReport bk now st
                 = Inl (Error (''Failed to get all channels: '' @ msg))"
      by (simp add: generateSummaryReport_def getAllChannels_def select_channels_def)
    with assms show ?thesis by simp
  qed
  obtain per where p: "mediaOfChannels bk st (tv_channels st) = Inr per"
  proof (cases "mediaOfChannels bk st (tv_channels st)")
    case (Inl e)
    with g have "generateSummaryReport bk now st = Inl e"
      by (simp add: generateSummaryReport_def)
    with assms show ?thesis by simp
  next
    case (Inr per)
    then show ?thesis using that by blast
  qed
  obtain t c where tc: "countVideos per (0, Map.empty) = (t, c)"
    by (cases "countVideos per (0, Map.empty)") blast
  from g p tc have "generateSummaryReport bk now st =
      Inr \<lparr>total_channels = int (length (tv_channels st)),
           visible = int (length (filter (\<lambda>c. c_visible c = Some True) (tv_channels st))),
           hidden = int (length (filter (\<lambda>c. c_visible c \<noteq> Some True) (tv_channels st))),
           null_visibility = int (length (filter (\<lambda>c. c_visible c = None) (tv_channels st))),
           channels_with_youtube_id =
             int (length (filter (\<lambda>c. truthy (c_youtube_id c) \<noteq> None) (tv_channels st))),
           total_videos = t, videos_per_channel = c, export_timestamp = now\<rparr>"
    by (simp add: generateSummaryReport_def)
  with assms have s: "s =
      \<lparr>total_channels = int (length (tv_channels st)),
       visible = int (length (filter (\<lambda>c. c_visible c = Some True) (tv_channels st))),
       hidden = int (length (filter (\<lambda>c. c_visible c \<noteq> Some True) (tv_channels st))),
       null_visibility = int (length (filter (\<lambda>c. c_visible c = None) (tv_channels st))),
       channels_with_youtube_id =
         int (length (filter (\<lambda>c. truthy (c_youtube_id c) \<noteq> None) (tv_channels st))),
       total_videos = t, videos_per_channel = c, export_timestamp = now\<rparr>"
    by simp
  show "total_channels s = int (length (tv_channels st))" by (simp add: s)
  show "visible s = int (length (filter (\<lambda>c. c_visible c = Some True) (tv_channels st)))"
    by (simp add: s)
  show "hidden s = int (length (filter (\<lambda>c. c_visible c \<noteq> Some True) (tv_channels st)))"
    by (simp add: s)
  show "null_visibility s = int (length (filter (\<lambda>c. c_visible c = None) (tv_channels st)))"
    by (simp add: s)
qed

text \<open>
  Claim C9, amended. In the summary report every channel is counted in exactly one of
  \<open>visible\<close> and \<open>hidden\<close>, so these two add up to \<open>total_channels\<close>; \<open>hidden\<close> counts
  the channels whose flag is \<open>false\<close> or \<open>null\<close>, and \<open>null_visibility\<close> counts the
  \<open>null\<close> ones again, so it is at most \<open>hidden\<close>.
\<close>

theorem visibility_counts:
  assumes "generateSummaryReport bk now st = Inr s"
  shows "visible s + hidden s = total_channels s
         \<and> null_visibility s \<le> hidden s
         \<and> visible s = int (length (filter (\<lambda>c. c_visible c = Some True) (tv_channels st)))
         \<and> hidden s = int (length (filter (\<lambda>c. c_visible c = Some False \<or> c_visible c = None)
                                     (tv_channels st)))
         \<and> null_visibility s = int (length (filter (\<lambda>c. c_visible c = None) (tv_channels st)))"
proof -
  note f = summary_fields[OF assms]
  have h: "(\<lambda>c. c_visible c \<noteq> Some True) = (\<lambda>c. c_visible c = Some False \<or> c_visible c = None)"
  proof (rule ext)
    fix c
    show "(c_visible c \<noteq> Some True) = (c_visible c = Some False \<or> c_visible c = None)"
      by (cases "c_visible c") auto
  qed
  have "null_visibility s \<le> hidden s"
    using filter_mono_length[of "\<lambda>c. c_visible c = None" "\<lambda>c. c_visible c \<noteq> Some True" "tv_channels st"]
    by (simp add: f)
  moreover have "visible s + hidden s = total_channels s"
    using filter_split_length[of "\<lambda>c. c_visible c = Some True" "tv_channels st"]
    by (simp add: f)
  moreover have "hidden s = int (length (filter (\<lambda>c. c_visible c = Some False \<or> c_visible c = None)
      (tv_channels st)))"
    using f(3) by (simp only: h)
  ultimately show ?thesis using f(2,4) by simp
qed

lemma nullVisibility_report:
  "generateSummaryReport okBackend [] nullVisibilityStore = Inr nullVisibilitySummary"
  by (simp add: generateSummaryReport_def getAllChannels_def select_channels_def okBackend_def
        nullVisibilityStore_def nullChannel_def getChannelMediaItems_def select_media_def
        nullVisibilitySummary_def truthy_def CHANNELS_TABLE_def VIDEOS_TABLE_def)

theorem visibility_counts_witness:
  "generateSummaryReport okBackend [] nullVisibilityStore = Inr nullVisibilitySummary
   \<and> visible nullVisibilitySummary + hidden nullVisibilitySummary
       = total_channels nullVisibilitySummary
   \<and> null_visibility nullVisibilitySummary \<le> hidden nullVisibilitySummary
   \<and> hidden nullVisibilitySummary = 1"
proof -
  have r: "generateSummaryReport okBackend [] nullVisibilityStore = Inr nullVisibilitySummary"
    by (rule nullVisibility_report)
  from visibility_counts[OF r] r show ?thesis
    by (simp add: nullVisibilityStore_def nullChannel_def)
qed

text \<open>
  One channel with \<open>null\<close> visibility is counted as hidden and as unknown: the three
  counts add up to 2 for 1 channel.
\<close>

theorem visibility_partition_counterexample:
  "generateSummaryReport okBackend [] nullVisibilityStore = Inr nullVisibilitySummary
   \<and> hidden nullVisibilitySummary = 1 \<and> null_visibility nullVisibilitySummary = 1
   \<and> visible nullVisibilitySummary + hidden nullVisibilitySummary
         + null_visibility nullVisibilitySummary
       \<noteq> total_channels nullVisibilitySummary"
  using nullVisibility_report by (simp add: nullVisibilitySummary_def)

section \<open>The rows a sync inserts\<close>

lemma str_includes_prefix: "str_includes (p @ b) p"
proof (cases "p @ b")
  case Nil
  then show ?thesis by simp
next
  case (Cons a l)
  have "prefix p (p @ b)" by simp
  with Cons show ?thesis by simp
qed

lemma str_includes_append: "str_includes x p \<Longrightarrow> str_includes (a @ x) p"
  by (induction a) simp_all

lemma newRecord_url_valid: "\<not> invalidYouTubeUrl (stored bk (newRecord slug v))"
proof -
  have "str_includes (''https://www.'' @ (''youtube.com/watch?v='' @ vd_id v))
          ''youtube.com/watch?v=''"
    by (rule str_includes_append) (rule str_includes_prefix)
  then show ?thesis
    by (simp add: invalidYouTubeUrl_def stored_def newRecord_def truthy_def)
qed

lemma newRecord_columns:
  "m_id (stored bk (newRecord slug v)) = vd_id v"
  "m_youtube_url (stored bk (newRecord slug v))
     = Some (''https://www.youtube.com/watch?v='' @ vd_id v)"
  "m_youtube_id (stored bk (newRecord slug v)) = Some (vd_id v)"
  "m_content_type (stored bk (newRecord slug v))
     = Some (case vd_contentType v of None \<Rightarrow> ''podcast''
             | Some t \<Rightarrow> if t = [] then ''podcast'' else t)"
  by (simp_all add: stored_def newRecord_def orElse_def truthy_def split: option.splits)

text \<open>
  Claim C10. Every row that \<open>insertNewMediaItems\<close> adds to the store comes from a video
  of the batch and has \<open>youtube_url\<close> equal to \<open>https://www.youtube.com/watch?v=\<close>
  followed by the video's id, \<open>youtube_id\<close> equal to that id, and \<open>content_type\<close> equal
  to the video's content type, \<open>podcast\<close> when that is absent or empty; so the URL test
  of the integrity check does not flag the row.
\<close>

theorem inserted_rows_canonical:
  "\<forall>r\<in>set (drop (length (tv_media_items st))
               (tv_media_items (snd (insertNewMediaItems bk slug videos st)))).
     \<exists>v\<in>set videos.
        m_id r = vd_id v
        \<and> m_youtube_url r = Some (''https://www.youtube.com/watch?v='' @ vd_id v)
        \<and> m_youtube_id r = Some (vd_id v)
        \<and> m_content_type r
            = Some (case vd_contentType v of None \<Rightarrow> ''podcast''
                    | Some t \<Rightarrow> if t = [] then ''podcast'' else t)
        \<and> \<not> invalidYouTubeUrl r"
proof
  fix r
  assume r: "r \<in> set (drop (length (tv_media_items st))
                     (tv_media_items (snd (insertNewMediaItems bk slug videos st))))"
  with insertNewMediaItems_added[of st bk slug videos]
  have "r \<in> set (map (stored bk) (snd (splitVideos slug (existingIdsOf st slug) videos)))"
    by auto
  then obtain v where v: "v \<in> set videos" and rv: "r = stored bk (newRecord slug v)"
    by (auto simp: splitVideos_new)
  from v show "\<exists>v\<in>set videos.
        m_id r = vd_id v
        \<and> m_youtube_url r = Some (''https://www.youtube.com/watch?v='' @ vd_id v)
        \<and> m_youtube_id r = Some (vd_id v)
        \<and> m_content_type r
            = Some (case vd_contentType v of None \<Rightarrow> ''podcast''
                    | Some t \<Rightarrow> if t = [] then ''podcast'' else t)
        \<and> \<not> invalidYouTubeUrl r"
    unfolding rv using newRecord_columns[of bk slug v] newRecord_url_valid[of bk slug v]
    by blast
qed

theorem inserted_rows_canonical_witness:
  "tv_media_items syncResult ! 2
     \<in> set (drop (length (tv_media_items syncStore)) (tv_media_items syncResult))
   \<and> m_youtube_url (tv_media_items syncResult ! 2)
       = Some ''https://www.youtube.com/watch?v=aaaaaaaaaa9''
   \<and> \<not> invalidYouTubeUrl (tv_media_items syncResult ! 2)"
proof -
  let ?r = "tv_media_items syncResult ! 2"
  have mem: "?r \<in> set (drop (length (tv_media_items syncStore)) (tv_media_items syncResult))"
    by code_simp
  have rid: "m_id ?r = ''aaaaaaaaaa9''" by code_simp
  have "\<exists>v\<in>set syncBatch.
        m_id ?r = vd_id v
        \<and> m_youtube_url ?r = Some (''https://www.youtube.com/watch?v='' @ vd_id v)
        \<and> m_youtube_id ?r = Some (vd_id v)
        \<and> m_content_type ?r
            = Some (case vd_contentType v of None \<Rightarrow> ''podcast''
                    | Some t \<Rightarrow> if t = [] then ''podcast'' else t)
        \<and> \<not> invalidYouTubeUrl ?r"
    unfolding syncResult_def
    by (rule bspec[OF inserted_rows_canonical[of syncStore okBackend "''A''" syncBatch]
                      mem[unfolded syncResult_def]])
  then obtain v where "v \<in> set syncBatch" and c:
       "m_id ?r = vd_id v
        \<and> m_youtube_url ?r = Some (''https://www.youtube.com/watch?v='' @ vd_id v)
        \<and> m_youtube_id ?r = Some (vd_id v)
        \<and> m_content_type ?r
            = Some (case vd_contentType v of None \<Rightarrow> ''podcast''
                    | Some t \<Rightarrow> if t = [] then ''podcast'' else t)
        \<and> \<not> invalidYouTubeUrl ?r" ..
  from c have "m_youtube_url ?r = Some (''https://www.youtube.com/watch?v='' @ m_id ?r)"
    and "\<not> invalidYouTubeUrl ?r"
    by simp_all
  with mem rid show ?thesis by simp
qed


section \<open>The reconciliation scenario, checked\<close>

lemma verifyCSVFiles_passed_iff:
  assumes "export_channels_csv fs = Some channelsContent"
    and "export_videos_csv fs = Some videosContent"
    and "export_channel_statistics_csv fs = Some statisticsContent"
    and "export_summary_json fs = Some s"
  shows "passed (caught (verifyCSVFiles fs))
           = (int (length (filter (\<lambda>line. trim line \<noteq> []) (splitLines channelsContent))) - 1
                = total_channels s
              \<and> int (parseCSVRecordCount videosContent) = total_videos s)"
  using assms by (simp add: verifyCSVFiles_def caught_def Let_def)

lemma scenario_state:
  "length (tv_channels scenarioStore) = 2 \<and> storedCount scenarioStore ''A'' = 5
   \<and> storedCount scenarioStore ''B'' = 3 \<and> length (tv_media_items scenarioStore) = 8"
  by code_simp

lemma scenario_summary:
  "map_option total_channels (export_summary_json scenarioFiles) = Some 2
   \<and> map_option total_videos (export_summary_json scenarioFiles) = Some 8
   \<and> summaryCount scenarioFiles ''A'' = Some 5 \<and> summaryCount scenarioFiles ''B'' = Some 3"
  by code_simp

lemma scenario_outcomes:
  "outcomes okBackend scenarioStore scenarioFiles = [True, True, True, True]"
  by code_simp

lemma scenario_outcomes_mutated:
  "outcomes okBackend scenarioStore (withTotalVideos 7 scenarioFiles)
     = [True, False, True, False]"
  by code_simp

lemma scenario_mutation_only_total:
  "export_channels_csv (withTotalVideos 7 scenarioFiles) = export_channels_csv scenarioFiles
   \<and> export_videos_csv (withTotalVideos 7 scenarioFiles) = export_videos_csv scenarioFiles
   \<and> map_option total_channels (export_summary_json (withTotalVideos 7 scenarioFiles)) = Some 2
   \<and> map_option total_videos (export_summary_json (withTotalVideos 7 scenarioFiles)) = Some 7
   \<and> summaryCount (withTotalVideos 7 scenarioFiles) ''A'' = Some 5
   \<and> summaryCount (withTotalVideos 7 scenarioFiles) ''B'' = Some 3"
  using scenario_summary
  by (cases "export_summary_json scenarioFiles")
     (simp_all add: withTotalVideos_def summaryCount_def)

text \<open>
  Claim C1, amended. The store holds 2 channels with 5 and 3 media items, and the
  summary written from it records \<open>total_channels = 2\<close>, \<open>total_videos = 8\<close> and 5 and 3
  videos for the two channels: the four checks pass. With only the summary's
  \<open>total_videos\<close> changed to 7, the channel-count check and the integrity check still
  pass, and the video-count check and the export-file check both fail: the export-file
  check compares the records of the videos file, still 8, with the summary's total.
\<close>

theorem reconciliation_scenario:
  "length (tv_channels scenarioStore) = 2
   \<and> storedCount scenarioStore ''A'' = 5 \<and> storedCount scenarioStore ''B'' = 3
   \<and> map_option total_channels (export_summary_json scenarioFiles) = Some 2
   \<and> map_option total_videos (export_summary_json scenarioFiles) = Some 8
   \<and> summaryCount scenarioFiles ''A'' = Some 5 \<and> summaryCount scenarioFiles ''B'' = Some 3
   \<and> outcomes okBackend scenarioStore scenarioFiles = [True, True, True, True]
   \<and> map_option total_videos (export_summary_json (withTotalVideos 7 scenarioFiles)) = Some 7
   \<and> outcomes okBackend scenarioStore (withTotalVideos 7 scenarioFiles)
       = [True, False, True, False]"
  using scenario_state scenario_summary scenario_outcomes scenario_outcomes_mutated
    scenario_mutation_only_total
  by simp

text \<open>
  With \<open>total_videos\<close> changed to 7 the outcome is not "only the video-count check
  fails": the export-file check, the fourth, fails too.
\<close>

theorem reconciliation_only_video_count_counterexample:
  "outcomes okBackend scenarioStore (withTotalVideos 7 scenarioFiles)
     \<noteq> [True, False, True, True]
   \<and> \<not> passed (caught (verifyCSVFiles (withTotalVideos 7 scenarioFiles)))"
proof -
  have "outcomes okBackend scenarioStore (withTotalVideos 7 scenarioFiles) ! 3
          = passed (caught (verifyCSVFiles (withTotalVideos 7 scenarioFiles)))"
    by (simp add: outcomes_def runFullVerification_def Let_def)
  with scenario_outcomes_mutated show ?thesis by simp
qed

end
